theory Spec2Isabelle
  imports Main "HOL-Library.Word"
begin

section \<open>Common data: identifiers, errors, bus messages, outbox rows\<close>

text \<open>
  \<open>uuid.UUID\<close> is a 16-byte array; amounts and balances are Go \<open>int64\<close> values held in
  Postgres \<open>BIGINT\<close> columns, modelled as integers with the range written out where
  the database does arithmetic; byte slices are strings of bytes; timestamps are
  microseconds.
\<close>

type_synonym uuid = "128 word"
type_synonym bytes = string
type_synonym timestamp = int

definition MaxInt64 :: int where
  "MaxInt64 = 9223372036854775807"

text \<open>The gRPC status codes the handlers produce.\<close>

datatype code = InvalidArgument | NotFound | AlreadyExists | FailedPrecondition | Internal

text \<open>
  A Go \<open>error\<close> value: a gRPC status error, \<open>pgx.ErrNoRows\<close>, any other database error, or
  a protobuf marshalling error.
\<close>

datatype error = StatusErr code string | ErrNoRows | DbErr | MarshalErr

text \<open>
  The statements a transaction can run. A fault oracle of type \<open>query \<Rightarrow> bool\<close> says which of
  them fail with an unexpected database error during one handler call, so that every
  \<open>if err != nil\<close> branch of the source is a branch of the model.
\<close>

datatype query =
    Q_Begin | Q_Commit
  | Q_InsertInboxCheck | Q_TryDeductOnce | Q_AccountExists | Q_InsertOutbox
  | Q_CreateAccount | Q_CreateAccountIdempotent | Q_TopUp
  | Q_InsertTopupIdempotency | Q_GetTopupIdempotency | Q_SetTopupIdempotencyBalance
  | Q_DeleteTopupIdempotency
  | Q_CreateOrder | Q_CreateOrderIdempotent | Q_GetOrderByIdempotency
  | Q_UpdateOrderStatusIfNew
  | Q_LockUnsentOutbox | Q_MarkOutboxSent int | Q_MarkOutboxAttemptFailed int

type_synonym faults = "query \<Rightarrow> bool"

definition no_faults :: faults where
  "no_faults = (\<lambda>q. False)"

text \<open>\<open>kafka.Message\<close>, reduced to the two fields the code reads and writes.\<close>

record kafka_message =
  Key :: bytes
  Value :: bytes

text \<open>A row of the \<open>outbox\<close> table (the same table in both services).\<close>

record outbox_row =
  ob_id :: int
  ob_topic :: string
  ob_kafka_key :: string
  ob_payload :: bytes
  ob_created_at :: timestamp
  ob_sent_at :: "timestamp option"
  ob_attempts :: int
  ob_last_error :: "string option"

text \<open>The two events carried on the bus.\<close>

record PaymentRequested =
  rq_EventId :: string
  rq_OccurredAt :: timestamp
  rq_OrderId :: string
  rq_UserId :: string
  rq_Amount :: int

datatype PaymentResultStatus =
    PAYMENT_RESULT_STATUS_UNSPECIFIED
  | PAYMENT_RESULT_STATUS_SUCCESS
  | PAYMENT_RESULT_STATUS_FAIL_NO_ACCOUNT
  | PAYMENT_RESULT_STATUS_FAIL_NOT_ENOUGH_FUNDS
  | PAYMENT_RESULT_STATUS_FAIL_INTERNAL

record PaymentResult =
  rs_EventId :: string
  rs_OccurredAt :: timestamp
  rs_OrderId :: string
  rs_UserId :: string
  rs_Status :: PaymentResultStatus
  rs_Reason :: string

text \<open>
  \<open>Repo.WithTx\<close>: begin, run the function, roll back when it returns an error, commit
  otherwise. The function returns the state it reached together with its result; on
  an error that state is discarded.
\<close>

definition WithTx :: "faults \<Rightarrow> ('db \<Rightarrow> (error + 'a) \<times> 'db) \<Rightarrow> 'db \<Rightarrow> (error + 'a) \<times> 'db" where
  "WithTx flt fn db =
     (if flt Q_Begin then (Inl DbErr, db)
      else case fn db of
             (Inl e, _) \<Rightarrow> (Inl e, db)
           | (Inr a, db') \<Rightarrow> if flt Q_Commit then (Inl DbErr, db) else (Inr a, db'))"

section \<open>Payments service\<close>

subsection \<open>Database\<close>

record payment_operation =
  po_user_id :: string
  po_amount :: int
  po_created_at :: timestamp

record topup_idempotency_row =
  ti_amount :: int
  ti_balance_after :: int

text \<open>
  \<open>accounts(user_id PK, balance)\<close>, \<open>payment_operations(order_id PK, ...)\<close>,
  \<open>topup_idempotency(PK(user_id, idempotency_key), amount, balance_after)\<close>,
  \<open>inbox(message_id PK, order_id)\<close> and \<open>outbox\<close> in \<open>id\<close> order with its sequence.
\<close>

record payments_db =
  accounts :: "string \<rightharpoonup> int"
  payment_operations :: "uuid \<rightharpoonup> payment_operation"
  topup_idempotency :: "string \<times> string \<rightharpoonup> topup_idempotency_row"
  p_inbox :: "uuid \<rightharpoonup> uuid"
  p_outbox :: "outbox_row list"
  p_outbox_seq :: int

subsection \<open>Queries\<close>

text \<open>
  Modelled from the spec: the query \<open>InsertInboxCheck\<close> of the payments service (its SQL
  is not among the sources). A consumer transaction inserts the inbound event's
  \<open>message_id\<close>; a duplicate insert reports 0 and inserts nothing.
\<close>

definition p_InsertInboxCheck :: "faults \<Rightarrow> uuid \<Rightarrow> uuid \<Rightarrow> payments_db \<Rightarrow> (error + int) \<times> payments_db" where
  "p_InsertInboxCheck flt MessageID OrderID db =
     (if flt Q_InsertInboxCheck then (Inl DbErr, db)
      else case p_inbox db MessageID of
             Some _ \<Rightarrow> (Inr 0, db)
           | None \<Rightarrow> (Inr 1, db\<lparr>p_inbox := (p_inbox db)(MessageID \<mapsto> OrderID)\<rparr>))"

text \<open>
  Modelled from the spec: the query \<open>TryDeductOnce\<close> (its SQL is not among the sources).
  A single statement that, conditioned on \<open>account.user_id = user_id\<close> and
  \<open>account.balance \<ge> amount\<close>, subtracts \<open>amount\<close> and records an operation row keyed by
  \<open>order_id\<close>, which prevents a second debit for the same order; it reports whether an
  operation row was inserted.
\<close>

definition TryDeductOnce :: "faults \<Rightarrow> timestamp \<Rightarrow> uuid \<Rightarrow> string \<Rightarrow> int \<Rightarrow> payments_db \<Rightarrow> (error + int) \<times> payments_db" where
  "TryDeductOnce flt now OrderID UserID Balance db =
     (if flt Q_TryDeductOnce then (Inl DbErr, db)
      else case accounts db UserID of
             None \<Rightarrow> (Inr 0, db)
           | Some b \<Rightarrow>
               if Balance \<le> b \<and> payment_operations db OrderID = None
               then (Inr 1,
                     db\<lparr>accounts := (accounts db)(UserID \<mapsto> b - Balance),
                        payment_operations := (payment_operations db)(OrderID \<mapsto>
                          \<lparr>po_user_id = UserID, po_amount = Balance, po_created_at = now\<rparr>)\<rparr>)
               else (Inr 0, db))"

text \<open>
  Modelled from the spec: the query \<open>AccountExists\<close> (its SQL is not among the sources):
  whether an account row exists for the user.
\<close>

definition AccountExists :: "faults \<Rightarrow> string \<Rightarrow> payments_db \<Rightarrow> (error + bool) \<times> payments_db" where
  "AccountExists flt UserID db =
     (if flt Q_AccountExists then (Inl DbErr, db)
      else (Inr (accounts db UserID \<noteq> None), db))"

text \<open>
  Modelled from the spec: the query \<open>InsertOutbox\<close> (its SQL is not among the sources).
  It appends a row with the next \<open>id\<close>, unsent, with no attempts and no error. The
  sequence is part of the state, so a rollback restores it; the \<open>id\<close>s of committed rows
  increase either way.
\<close>

definition new_outbox_row :: "int \<Rightarrow> timestamp \<Rightarrow> string \<Rightarrow> string \<Rightarrow> bytes \<Rightarrow> outbox_row" where
  "new_outbox_row i now Topic KafkaKey Payload =
     \<lparr>ob_id = i, ob_topic = Topic, ob_kafka_key = KafkaKey, ob_payload = Payload,
      ob_created_at = now, ob_sent_at = None, ob_attempts = 0, ob_last_error = None\<rparr>"

definition p_InsertOutbox :: "faults \<Rightarrow> timestamp \<Rightarrow> string \<Rightarrow> string \<Rightarrow> bytes \<Rightarrow> payments_db \<Rightarrow> (error + int) \<times> payments_db" where
  "p_InsertOutbox flt now Topic KafkaKey Payload db =
     (if flt Q_InsertOutbox then (Inl DbErr, db)
      else (Inr (p_outbox_seq db + 1),
            db\<lparr>p_outbox := p_outbox db @ [new_outbox_row (p_outbox_seq db + 1) now Topic KafkaKey Payload],
               p_outbox_seq := p_outbox_seq db + 1\<rparr>))"

subsection \<open>The consumer of \<open>PaymentRequested\<close>\<close>

text \<open>
  What one call of the handler takes from outside the repository: the protobuf codec,
  the \<open>uuid\<close> package (\<open>Parse\<close>, \<open>String\<close>, \<open>NewString\<close>), the clock, and the fault oracle.
\<close>

record p_env =
  pe_Unmarshal :: "bytes \<Rightarrow> PaymentRequested option"
  pe_Marshal :: "PaymentResult \<Rightarrow> bytes option"
  pe_uuid_Parse :: "string \<Rightarrow> uuid option"
  pe_uuid_String :: "uuid \<Rightarrow> string"
  pe_uuid_NewString :: string
  pe_now :: timestamp
  pe_faults :: faults

text \<open>The function passed to \<open>WithTx\<close> by \<open>PaymentRequestedConsumer.handleMessage\<close>.\<close>

definition PaymentRequested_tx :: "p_env \<Rightarrow> string \<Rightarrow> PaymentRequested \<Rightarrow> uuid \<Rightarrow> uuid \<Rightarrow> payments_db \<Rightarrow> (error + unit) \<times> payments_db" where
  "PaymentRequested_tx env resultTopic ev msgID orderID db =
     (case p_InsertInboxCheck (pe_faults env) msgID orderID db of
        (Inl e, db1) \<Rightarrow> (Inl e, db1)
      | (Inr inserted, db1) \<Rightarrow>
          if inserted = 0 then (Inr (), db1)
          else
            (case TryDeductOnce (pe_faults env) (pe_now env) orderID (rq_UserId ev) (rq_Amount ev) db1 of
               (Inl e, db2) \<Rightarrow> (Inl e, db2)
             | (Inr OpInserted, db2) \<Rightarrow>
                 (case (if OpInserted = 1
                        then (Inr (PAYMENT_RESULT_STATUS_SUCCESS, ''''), db2)
                        else (case AccountExists (pe_faults env) (rq_UserId ev) db2 of
                                (Inl e, db3) \<Rightarrow> (Inl e, db3)
                              | (Inr exists, db3) \<Rightarrow>
                                  if \<not> exists
                                  then (Inr (PAYMENT_RESULT_STATUS_FAIL_NO_ACCOUNT, ''account not found''), db3)
                                  else (Inr (PAYMENT_RESULT_STATUS_FAIL_NOT_ENOUGH_FUNDS, ''not enough funds''), db3)))
                  of
                    (Inl e, db3) \<Rightarrow> (Inl e, db3)
                  | (Inr (status, reason), db3) \<Rightarrow>
                      (case pe_Marshal env
                              \<lparr>rs_EventId = pe_uuid_NewString env, rs_OccurredAt = pe_now env,
                               rs_OrderId = pe_uuid_String env orderID, rs_UserId = rq_UserId ev,
                               rs_Status = status, rs_Reason = reason\<rparr> of
                         None \<Rightarrow> (Inl MarshalErr, db3)
                       | Some payload \<Rightarrow>
                           (case p_InsertOutbox (pe_faults env) (pe_now env) resultTopic
                                   (pe_uuid_String env orderID) payload db3 of
                              (Inl e, db4) \<Rightarrow> (Inl e, db4)
                            | (Inr _, db4) \<Rightarrow> (Inr (), db4))))))"

text \<open>
  \<open>PaymentRequestedConsumer.handleMessage\<close>: \<open>None\<close> is the \<open>nil\<close> error, on which the
  run loop commits the offset.
\<close>

definition PaymentRequestedConsumer_handleMessage :: "p_env \<Rightarrow> string \<Rightarrow> kafka_message \<Rightarrow> payments_db \<Rightarrow> error option \<times> payments_db" where
  "PaymentRequestedConsumer_handleMessage env resultTopic m db =
     (case pe_Unmarshal env (Value m) of
        None \<Rightarrow> (None, db)
      | Some ev \<Rightarrow>
          (case pe_uuid_Parse env (rq_EventId ev) of
             None \<Rightarrow> (None, db)
           | Some msgID \<Rightarrow>
               (case pe_uuid_Parse env (rq_OrderId ev) of
                  None \<Rightarrow> (None, db)
                | Some orderID \<Rightarrow>
                    if rq_UserId ev = '''' \<or> rq_Amount ev \<le> 0 then (None, db)
                    else (case WithTx (pe_faults env) (PaymentRequested_tx env resultTopic ev msgID orderID) db of
                            (Inl e, db') \<Rightarrow> (Some e, db')
                          | (Inr _, db') \<Rightarrow> (None, db')))))"

subsection \<open>The gRPC handlers \<open>CreateAccount\<close> and \<open>TopUp\<close>\<close>

record Account =
  ac_UserId :: string
  ac_Balance :: int

record CreateAccountRequest =
  ca_UserId :: string
  ca_IdempotencyKey :: string

record TopUpRequest =
  tu_UserId :: string
  tu_Amount :: int
  tu_IdempotencyKey :: string

text \<open>
  Modelled from the spec: the query \<open>CreateAccount\<close> (its SQL is not among the sources).
  It inserts the account with balance 0; when one already exists for the user no row
  comes back, which the handler reads as \<open>pgx.ErrNoRows\<close>.
\<close>

definition q_CreateAccount :: "faults \<Rightarrow> string \<Rightarrow> payments_db \<Rightarrow> (error + Account) \<times> payments_db" where
  "q_CreateAccount flt UserID db =
     (if flt Q_CreateAccount then (Inl DbErr, db)
      else case accounts db UserID of
             Some _ \<Rightarrow> (Inl ErrNoRows, db)
           | None \<Rightarrow> (Inr \<lparr>ac_UserId = UserID, ac_Balance = 0\<rparr>,
                      db\<lparr>accounts := (accounts db)(UserID \<mapsto> 0)\<rparr>))"

text \<open>
  Modelled from the spec: the query \<open>CreateAccountIdempotent\<close> (its SQL is not among the
  sources). An upsert-style insert that tolerates an existing account row for the user and
  returns the current balance.
\<close>

definition q_CreateAccountIdempotent :: "faults \<Rightarrow> string \<Rightarrow> payments_db \<Rightarrow> (error + Account) \<times> payments_db" where
  "q_CreateAccountIdempotent flt UserID db =
     (if flt Q_CreateAccountIdempotent then (Inl DbErr, db)
      else case accounts db UserID of
             Some b \<Rightarrow> (Inr \<lparr>ac_UserId = UserID, ac_Balance = b\<rparr>, db)
           | None \<Rightarrow> (Inr \<lparr>ac_UserId = UserID, ac_Balance = 0\<rparr>,
                      db\<lparr>accounts := (accounts db)(UserID \<mapsto> 0)\<rparr>))"

text \<open>
  Modelled from the spec: the query \<open>TopUp\<close> (its SQL is not among the sources). It adds
  the amount to the balance of the user's account and returns the account; with no
  account no row comes back. A sum beyond the 64-bit column is a database error.
\<close>

definition q_TopUp :: "faults \<Rightarrow> string \<Rightarrow> int \<Rightarrow> payments_db \<Rightarrow> (error + Account) \<times> payments_db" where
  "q_TopUp flt UserID Balance db =
     (if flt Q_TopUp then (Inl DbErr, db)
      else case accounts db UserID of
             None \<Rightarrow> (Inl ErrNoRows, db)
           | Some b \<Rightarrow>
               if MaxInt64 < b + Balance then (Inl DbErr, db)
               else (Inr \<lparr>ac_UserId = UserID, ac_Balance = b + Balance\<rparr>,
                     db\<lparr>accounts := (accounts db)(UserID \<mapsto> b + Balance)\<rparr>))"

text \<open>The four statements of \<open>topup_idempotency.sql\<close>.\<close>

definition InsertTopupIdempotency :: "faults \<Rightarrow> string \<Rightarrow> string \<Rightarrow> int \<Rightarrow> payments_db \<Rightarrow> (error + int) \<times> payments_db" where
  "InsertTopupIdempotency flt UserID IdempotencyKey Amount db =
     (if flt Q_InsertTopupIdempotency then (Inl DbErr, db)
      else case topup_idempotency db (UserID, IdempotencyKey) of
             Some _ \<Rightarrow> (Inr 0, db)
           | None \<Rightarrow> (Inr 1,
                      db\<lparr>topup_idempotency := (topup_idempotency db)((UserID, IdempotencyKey) \<mapsto>
                           \<lparr>ti_amount = Amount, ti_balance_after = 0\<rparr>)\<rparr>))"

definition GetTopupIdempotency :: "faults \<Rightarrow> string \<Rightarrow> string \<Rightarrow> payments_db \<Rightarrow> (error + topup_idempotency_row) \<times> payments_db" where
  "GetTopupIdempotency flt UserID IdempotencyKey db =
     (if flt Q_GetTopupIdempotency then (Inl DbErr, db)
      else case topup_idempotency db (UserID, IdempotencyKey) of
             None \<Rightarrow> (Inl ErrNoRows, db)
           | Some row \<Rightarrow> (Inr row, db))"

definition SetTopupIdempotencyBalance :: "faults \<Rightarrow> string \<Rightarrow> string \<Rightarrow> int \<Rightarrow> payments_db \<Rightarrow> (error + int) \<times> payments_db" where
  "SetTopupIdempotencyBalance flt UserID IdempotencyKey BalanceAfter db =
     (if flt Q_SetTopupIdempotencyBalance then (Inl DbErr, db)
      else case topup_idempotency db (UserID, IdempotencyKey) of
             None \<Rightarrow> (Inl ErrNoRows, db)
           | Some row \<Rightarrow> (Inr BalanceAfter,
                          db\<lparr>topup_idempotency := (topup_idempotency db)((UserID, IdempotencyKey) \<mapsto>
                               row\<lparr>ti_balance_after := BalanceAfter\<rparr>)\<rparr>))"

definition DeleteTopupIdempotency :: "faults \<Rightarrow> string \<Rightarrow> string \<Rightarrow> payments_db \<Rightarrow> error option \<times> payments_db" where
  "DeleteTopupIdempotency flt UserID IdempotencyKey db =
     (if flt Q_DeleteTopupIdempotency then (Some DbErr, db)
      else (None, db\<lparr>topup_idempotency := (topup_idempotency db)((UserID, IdempotencyKey) := None)\<rparr>))"

text \<open>
  The balance cache is advisory (its errors are logged and ignored, and no response or
  database row depends on it), so the handlers are modelled with the cache disabled.
\<close>

definition Handlers_CreateAccount :: "faults \<Rightarrow> CreateAccountRequest \<Rightarrow> payments_db \<Rightarrow> (error + Account) \<times> payments_db" where
  "Handlers_CreateAccount flt req db =
     (if ca_UserId req = '''' then (Inl (StatusErr InvalidArgument ''user_id is required''), db)
      else if ca_IdempotencyKey req = '''' then
        (case q_CreateAccount flt (ca_UserId req) db of
           (Inl e, db') \<Rightarrow>
             if e = ErrNoRows then (Inl (StatusErr AlreadyExists ''account already exists''), db')
             else (Inl (StatusErr Internal ''failed to create account''), db')
         | (Inr account, db') \<Rightarrow> (Inr account, db'))
      else
        (case q_CreateAccountIdempotent flt (ca_UserId req) db of
           (Inl e, db') \<Rightarrow> (Inl (StatusErr Internal ''failed to create account''), db')
         | (Inr account, db') \<Rightarrow> (Inr account, db')))"

text \<open>
  The function passed to \<open>WithTx\<close> by \<open>Handlers.TopUp\<close>; its result is the pair of the
  captured variables \<open>balance\<close> and \<open>updateCache\<close>.
\<close>

definition TopUp_tx :: "faults \<Rightarrow> string \<Rightarrow> string \<Rightarrow> int \<Rightarrow> payments_db \<Rightarrow> (error + int \<times> bool) \<times> payments_db" where
  "TopUp_tx flt userID idemKey amount db =
     (case InsertTopupIdempotency flt userID idemKey amount db of
        (Inl e, db1) \<Rightarrow> (Inl e, db1)
      | (Inr inserted, db1) \<Rightarrow>
          if inserted = 0 then
            (case GetTopupIdempotency flt userID idemKey db1 of
               (Inl e, db2) \<Rightarrow> (Inl e, db2)
             | (Inr existing, db2) \<Rightarrow>
                 if ti_amount existing \<noteq> amount
                 then (Inl (StatusErr FailedPrecondition ''idempotency key reuse with different parameters''), db2)
                 else (Inr (ti_balance_after existing, False), db2))
          else
            (case q_TopUp flt userID amount db1 of
               (Inl e, db2) \<Rightarrow>
                 (let db3 = snd (DeleteTopupIdempotency flt userID idemKey db2)
                  in if e = ErrNoRows then (Inl (StatusErr NotFound ''account not found''), db3)
                     else (Inl e, db3))
             | (Inr account, db2) \<Rightarrow>
                 (case SetTopupIdempotencyBalance flt userID idemKey (ac_Balance account) db2 of
                    (Inl e, db3) \<Rightarrow> (Inl e, db3)
                  | (Inr _, db3) \<Rightarrow> (Inr (ac_Balance account, True), db3))))"

text \<open>\<open>status.FromError\<close> followed by the fallback to \<open>codes.Internal\<close>.\<close>

definition to_status :: "string \<Rightarrow> error \<Rightarrow> error" where
  "to_status msg e = (case e of StatusErr c s \<Rightarrow> StatusErr c s | _ \<Rightarrow> StatusErr Internal msg)"

definition Handlers_TopUp :: "faults \<Rightarrow> TopUpRequest \<Rightarrow> payments_db \<Rightarrow> (error + Account) \<times> payments_db" where
  "Handlers_TopUp flt req db =
     (if tu_UserId req = '''' then (Inl (StatusErr InvalidArgument ''user_id is required''), db)
      else if tu_Amount req \<le> 0 then (Inl (StatusErr InvalidArgument ''amount must be > 0''), db)
      else if tu_IdempotencyKey req = '''' then
        (case q_TopUp flt (tu_UserId req) (tu_Amount req) db of
           (Inl e, db') \<Rightarrow>
             if e = ErrNoRows then (Inl (StatusErr NotFound ''account not found''), db')
             else (Inl (StatusErr Internal ''failed to top up''), db')
         | (Inr account, db') \<Rightarrow> (Inr account, db'))
      else
        (case WithTx flt (TopUp_tx flt (tu_UserId req) (tu_IdempotencyKey req) (tu_Amount req)) db of
           (Inl e, db') \<Rightarrow> (Inl (to_status ''failed to top up'' e), db')
         | (Inr (balance, updateCache), db') \<Rightarrow>
             (Inr \<lparr>ac_UserId = tu_UserId req, ac_Balance = balance\<rparr>, db')))"

text \<open>A sequence of operations on the payments database, each with its own environment.\<close>

datatype payments_op =
    Op_CreateAccount faults CreateAccountRequest
  | Op_TopUp faults TopUpRequest
  | Op_PaymentRequested p_env string kafka_message

fun payments_step :: "payments_op \<Rightarrow> payments_db \<Rightarrow> payments_db" where
  "payments_step (Op_CreateAccount flt req) db = snd (Handlers_CreateAccount flt req db)"
| "payments_step (Op_TopUp flt req) db = snd (Handlers_TopUp flt req db)"
| "payments_step (Op_PaymentRequested env topic m) db = snd (PaymentRequestedConsumer_handleMessage env topic m db)"

fun payments_run :: "payments_op list \<Rightarrow> payments_db \<Rightarrow> payments_db" where
  "payments_run [] db = db"
| "payments_run (x # xs) db = payments_run xs (payments_step x db)"

definition empty_payments_db :: payments_db where
  "empty_payments_db =
     \<lparr>accounts = Map.empty, payment_operations = Map.empty, topup_idempotency = Map.empty,
      p_inbox = Map.empty, p_outbox = [], p_outbox_seq = 0\<rparr>"

section \<open>Orders service\<close>

subsection \<open>Database\<close>

text \<open>
  \<open>orders(order_id PK, user_id, amount, description, status, created_at, idempotency_key
  NULL, UNIQUE(user_id, idempotency_key))\<close>, the status held as text; \<open>inbox(message_id PK)\<close>;
  \<open>outbox\<close> with its sequence.
\<close>

record order_row =
  or_order_id :: uuid
  or_user_id :: string
  or_amount :: int
  or_description :: string
  or_status :: string
  or_created_at :: timestamp
  or_idempotency_key :: "string option"

record orders_db =
  orders :: "order_row list"
  o_inbox :: "uuid set"
  o_outbox :: "outbox_row list"
  o_outbox_seq :: int

subsection \<open>Queries\<close>

text \<open>
  The statements of the orders table. \<open>order_id\<close> and \<open>created_at\<close> are filled by column
  defaults, here the arguments \<open>new_id\<close> and \<open>now\<close>; an \<open>order_id\<close> already in the table
  violates the primary key.
\<close>

definition q_CreateOrder :: "faults \<Rightarrow> uuid \<Rightarrow> timestamp \<Rightarrow> string \<Rightarrow> int \<Rightarrow> string \<Rightarrow> orders_db \<Rightarrow> (error + order_row) \<times> orders_db" where
  "q_CreateOrder flt new_id now UserID Amount Description db =
     (if flt Q_CreateOrder \<or> new_id \<in> or_order_id ` set (orders db) then (Inl DbErr, db)
      else (let row = \<lparr>or_order_id = new_id, or_user_id = UserID, or_amount = Amount,
                        or_description = Description, or_status = ''NEW'', or_created_at = now,
                        or_idempotency_key = None\<rparr>
            in (Inr row, db\<lparr>orders := orders db @ [row]\<rparr>)))"

definition has_idempotency :: "string \<Rightarrow> string \<Rightarrow> order_row \<Rightarrow> bool" where
  "has_idempotency UserID IdempotencyKey r \<longleftrightarrow>
     or_user_id r = UserID \<and> or_idempotency_key r = Some IdempotencyKey"

definition CreateOrderIdempotent :: "faults \<Rightarrow> uuid \<Rightarrow> timestamp \<Rightarrow> string \<Rightarrow> int \<Rightarrow> string \<Rightarrow> string \<Rightarrow> orders_db \<Rightarrow> (error + order_row) \<times> orders_db" where
  "CreateOrderIdempotent flt new_id now UserID Amount Description IdempotencyKey db =
     (if flt Q_CreateOrderIdempotent then (Inl DbErr, db)
      else case find (has_idempotency UserID IdempotencyKey) (orders db) of
             Some _ \<Rightarrow> (Inl ErrNoRows, db)
           | None \<Rightarrow>
               if new_id \<in> or_order_id ` set (orders db) then (Inl DbErr, db)
               else (let row = \<lparr>or_order_id = new_id, or_user_id = UserID, or_amount = Amount,
                                 or_description = Description, or_status = ''NEW'', or_created_at = now,
                                 or_idempotency_key = Some IdempotencyKey\<rparr>
                     in (Inr row, db\<lparr>orders := orders db @ [row]\<rparr>)))"

definition GetOrderByIdempotency :: "faults \<Rightarrow> string \<Rightarrow> string \<Rightarrow> orders_db \<Rightarrow> (error + order_row) \<times> orders_db" where
  "GetOrderByIdempotency flt UserID IdempotencyKey db =
     (if flt Q_GetOrderByIdempotency then (Inl DbErr, db)
      else case find (has_idempotency UserID IdempotencyKey) (orders db) of
             None \<Rightarrow> (Inl ErrNoRows, db)
           | Some row \<Rightarrow> (Inr row, db))"

definition UpdateOrderStatusIfNew :: "faults \<Rightarrow> uuid \<Rightarrow> string \<Rightarrow> orders_db \<Rightarrow> error option \<times> orders_db" where
  "UpdateOrderStatusIfNew flt OrderID Status db =
     (if flt Q_UpdateOrderStatusIfNew then (Some DbErr, db)
      else (None,
            db\<lparr>orders := map (\<lambda>r. if or_order_id r = OrderID \<and> or_status r = ''NEW''
                                   then r\<lparr>or_status := Status\<rparr> else r) (orders db)\<rparr>))"

text \<open>
  Modelled from the spec: the query \<open>InsertInboxCheck\<close> of the orders service (its SQL is
  not among the sources): insert the \<open>message_id\<close>; a duplicate reports 0.
\<close>

definition o_InsertInboxCheck :: "faults \<Rightarrow> uuid \<Rightarrow> orders_db \<Rightarrow> (error + int) \<times> orders_db" where
  "o_InsertInboxCheck flt MessageID db =
     (if flt Q_InsertInboxCheck then (Inl DbErr, db)
      else if MessageID \<in> o_inbox db then (Inr 0, db)
      else (Inr 1, db\<lparr>o_inbox := insert MessageID (o_inbox db)\<rparr>))"

text \<open>
  Modelled from the spec: the query \<open>InsertOutbox\<close> of the orders service (its SQL is not
  among the sources), as in the payments service.
\<close>

definition o_InsertOutbox :: "faults \<Rightarrow> timestamp \<Rightarrow> string \<Rightarrow> string \<Rightarrow> bytes \<Rightarrow> orders_db \<Rightarrow> (error + int) \<times> orders_db" where
  "o_InsertOutbox flt now Topic KafkaKey Payload db =
     (if flt Q_InsertOutbox then (Inl DbErr, db)
      else (Inr (o_outbox_seq db + 1),
            db\<lparr>o_outbox := o_outbox db @ [new_outbox_row (o_outbox_seq db + 1) now Topic KafkaKey Payload],
               o_outbox_seq := o_outbox_seq db + 1\<rparr>))"

text \<open>
  Modelled from the spec: the query \<open>LockUnsentOutbox\<close> (its SQL is not among the sources).
  It locks up to \<open>batch\<close> oldest unsent rows, in \<open>id\<close> order; rows locked by another
  publisher are skipped, of which a single publisher sees none. A negative limit is a
  database error.
\<close>

definition LockUnsentOutbox :: "faults \<Rightarrow> int \<Rightarrow> orders_db \<Rightarrow> (error + outbox_row list) \<times> orders_db" where
  "LockUnsentOutbox flt lim db =
     (if flt Q_LockUnsentOutbox \<or> lim < 0 then (Inl DbErr, db)
      else (Inr (take (nat lim) (sort_key ob_id (filter (\<lambda>r. ob_sent_at r = None) (o_outbox db)))), db))"

text \<open>
  Modelled from the spec: the queries \<open>MarkOutboxSent\<close> and \<open>MarkOutboxAttemptFailed\<close>
  (their SQL is not among the sources). On success the publisher sets \<open>sent_at\<close>; on
  failure it increments \<open>attempts\<close> and records \<open>last_error\<close>.
\<close>

definition MarkOutboxSent :: "faults \<Rightarrow> timestamp \<Rightarrow> int \<Rightarrow> orders_db \<Rightarrow> error option \<times> orders_db" where
  "MarkOutboxSent flt now ID db =
     (if flt (Q_MarkOutboxSent ID) then (Some DbErr, db)
      else (None,
            db\<lparr>o_outbox := map (\<lambda>r. if ob_id r = ID then r\<lparr>ob_sent_at := Some now\<rparr> else r) (o_outbox db)\<rparr>))"

definition MarkOutboxAttemptFailed :: "faults \<Rightarrow> int \<Rightarrow> string \<Rightarrow> orders_db \<Rightarrow> error option \<times> orders_db" where
  "MarkOutboxAttemptFailed flt ID LastError db =
     (if flt (Q_MarkOutboxAttemptFailed ID) then (Some DbErr, db)
      else (None,
            db\<lparr>o_outbox := map (\<lambda>r. if ob_id r = ID
                                     then r\<lparr>ob_attempts := ob_attempts r + 1, ob_last_error := Some LastError\<rparr>
                                     else r) (o_outbox db)\<rparr>))"

subsection \<open>Environment\<close>

text \<open>
  What one call of an orders handler takes from outside the repository: the protobuf
  codec, the \<open>uuid\<close> package, the clock, the \<open>order_id\<close> the database generates, the
  outcome of \<open>kafka.Writer.WriteMessages\<close> for the outbox row with a given \<open>id\<close> (\<open>None\<close>
  for success, otherwise the text of the error), and the fault oracle.
\<close>

record o_env =
  oe_Unmarshal :: "bytes \<Rightarrow> PaymentResult option"
  oe_Marshal :: "PaymentRequested \<Rightarrow> bytes option"
  oe_uuid_Parse :: "string \<Rightarrow> uuid option"
  oe_uuid_String :: "uuid \<Rightarrow> string"
  oe_uuid_NewString :: string
  oe_now :: timestamp
  oe_new_order_id :: uuid
  oe_WriteMessages :: "int \<Rightarrow> kafka_message \<Rightarrow> string option"
  oe_faults :: faults

subsection \<open>The consumer of \<open>PaymentResult\<close>\<close>

definition PaymentResult_tx :: "o_env \<Rightarrow> uuid \<Rightarrow> uuid \<Rightarrow> string \<Rightarrow> orders_db \<Rightarrow> (error + unit) \<times> orders_db" where
  "PaymentResult_tx env msgID orderID newStatus db =
     (case o_InsertInboxCheck (oe_faults env) msgID db of
        (Inl e, db1) \<Rightarrow> (Inl e, db1)
      | (Inr inserted, db1) \<Rightarrow>
          if inserted = 0 then (Inr (), db1)
          else (case UpdateOrderStatusIfNew (oe_faults env) orderID newStatus db1 of
                  (Some e, db2) \<Rightarrow> (Inl e, db2)
                | (None, db2) \<Rightarrow> (Inr (), db2)))"

definition PaymentResultConsumer_handleMessage :: "o_env \<Rightarrow> kafka_message \<Rightarrow> orders_db \<Rightarrow> error option \<times> orders_db" where
  "PaymentResultConsumer_handleMessage env m db =
     (case oe_Unmarshal env (Value m) of
        None \<Rightarrow> (None, db)
      | Some ev \<Rightarrow>
          (case oe_uuid_Parse env (rs_EventId ev) of
             None \<Rightarrow> (None, db)
           | Some msgID \<Rightarrow>
               (case oe_uuid_Parse env (rs_OrderId ev) of
                  None \<Rightarrow> (None, db)
                | Some orderID \<Rightarrow>
                    (let newStatus = (if rs_Status ev = PAYMENT_RESULT_STATUS_SUCCESS
                                      then ''FINISHED'' else ''CANCELLED'')
                     in case WithTx (oe_faults env) (PaymentResult_tx env msgID orderID newStatus) db of
                          (Inl e, db') \<Rightarrow> (Some e, db')
                        | (Inr _, db') \<Rightarrow> (None, db')))))"

subsection \<open>The outbox publisher\<close>

text \<open>
  The loop of \<open>publishOnce\<close> over the locked rows. A failed write marks the attempt (the
  error of that statement is dropped) and continues with the next row; a failure to mark a
  row as sent ends the function with the error.
\<close>

fun publish_rows :: "o_env \<Rightarrow> outbox_row list \<Rightarrow> orders_db \<Rightarrow> (error + unit) \<times> orders_db" where
  "publish_rows env [] db = (Inr (), db)"
| "publish_rows env (r # rs) db =
     (case oe_WriteMessages env (ob_id r) \<lparr>Key = ob_kafka_key r, Value = ob_payload r\<rparr> of
        Some err \<Rightarrow>
          publish_rows env rs (snd (MarkOutboxAttemptFailed (oe_faults env) (ob_id r) err db))
      | None \<Rightarrow>
          (case MarkOutboxSent (oe_faults env) (oe_now env) (ob_id r) db of
             (Some e, db') \<Rightarrow> (Inl e, db')
           | (None, db') \<Rightarrow> publish_rows env rs db'))"

text \<open>The conversion \<open>int32(p.batch)\<close>.\<close>

definition to_int32 :: "int \<Rightarrow> int" where
  "to_int32 n = sint (word_of_int n :: 32 word)"

definition publishOnce_tx :: "o_env \<Rightarrow> int \<Rightarrow> orders_db \<Rightarrow> (error + unit) \<times> orders_db" where
  "publishOnce_tx env batch db =
     (case LockUnsentOutbox (oe_faults env) (to_int32 batch) db of
        (Inl e, db1) \<Rightarrow> (Inl e, db1)
      | (Inr rows, db1) \<Rightarrow>
          if length rows = 0 then (Inr (), db1)
          else publish_rows env rows db1)"

definition publishOnce :: "o_env \<Rightarrow> int \<Rightarrow> orders_db \<Rightarrow> error option \<times> orders_db" where
  "publishOnce env batch db =
     (case WithTx (oe_faults env) (publishOnce_tx env batch) db of
        (Inl e, db') \<Rightarrow> (Some e, db')
      | (Inr _, db') \<Rightarrow> (None, db'))"

subsection \<open>The gRPC handler \<open>CreateOrder\<close>\<close>

datatype OrderStatus =
    ORDER_STATUS_UNSPECIFIED | ORDER_STATUS_NEW | ORDER_STATUS_FINISHED | ORDER_STATUS_CANCELLED

record Order =
  OrderId :: string
  UserId :: string
  Amount :: int
  Description :: string
  Status :: OrderStatus
  CreatedAt :: timestamp

record CreateOrderRequest =
  co_UserId :: string
  co_Amount :: int
  co_Description :: string
  co_IdempotencyKey :: string

definition mapOrderStatus :: "string \<Rightarrow> OrderStatus" where
  "mapOrderStatus s =
     (if s = ''NEW'' then ORDER_STATUS_NEW
      else if s = ''FINISHED'' then ORDER_STATUS_FINISHED
      else if s = ''CANCELLED'' then ORDER_STATUS_CANCELLED
      else ORDER_STATUS_UNSPECIFIED)"

definition order_of_row :: "o_env \<Rightarrow> order_row \<Rightarrow> Order" where
  "order_of_row env row =
     \<lparr>OrderId = oe_uuid_String env (or_order_id row), UserId = or_user_id row,
      Amount = or_amount row, Description = or_description row,
      Status = mapOrderStatus (or_status row), CreatedAt = or_created_at row\<rparr>"

text \<open>
  The second half of the function passed to \<open>WithTx\<close> by \<open>Handlers.CreateOrder\<close>: build the
  \<open>PaymentRequested\<close> event for the row just inserted, append it to the outbox and set
  the response.
\<close>

definition CreateOrder_emit :: "o_env \<Rightarrow> CreateOrderRequest \<Rightarrow> order_row \<Rightarrow> orders_db \<Rightarrow> (error + Order) \<times> orders_db" where
  "CreateOrder_emit env req row db =
     (case oe_Marshal env
             \<lparr>rq_EventId = oe_uuid_NewString env, rq_OccurredAt = oe_now env,
              rq_OrderId = oe_uuid_String env (or_order_id row), rq_UserId = co_UserId req,
              rq_Amount = co_Amount req\<rparr> of
        None \<Rightarrow> (Inl (StatusErr Internal ''failed to marshal event''), db)
      | Some payload \<Rightarrow>
          (case o_InsertOutbox (oe_faults env) (oe_now env) ''payments.payment_requested.v1''
                  (oe_uuid_String env (or_order_id row)) payload db of
             (Inl e, db') \<Rightarrow> (Inl e, db')
           | (Inr _, db') \<Rightarrow> (Inr (order_of_row env row), db')))"

definition CreateOrder_tx :: "o_env \<Rightarrow> CreateOrderRequest \<Rightarrow> orders_db \<Rightarrow> (error + Order) \<times> orders_db" where
  "CreateOrder_tx env req db =
     (if co_IdempotencyKey req = '''' then
        (case q_CreateOrder (oe_faults env) (oe_new_order_id env) (oe_now env)
                (co_UserId req) (co_Amount req) (co_Description req) db of
           (Inl e, db1) \<Rightarrow> (Inl e, db1)
         | (Inr row, db1) \<Rightarrow> CreateOrder_emit env req row db1)
      else
        (case CreateOrderIdempotent (oe_faults env) (oe_new_order_id env) (oe_now env)
                (co_UserId req) (co_Amount req) (co_Description req) (co_IdempotencyKey req) db of
           (Inl e, db1) \<Rightarrow>
             if e = ErrNoRows then
               (case GetOrderByIdempotency (oe_faults env) (co_UserId req) (co_IdempotencyKey req) db1 of
                  (Inl e', db2) \<Rightarrow> (Inl e', db2)
                | (Inr existing, db2) \<Rightarrow>
                    if or_amount existing \<noteq> co_Amount req \<or> or_description existing \<noteq> co_Description req
                    then (Inl (StatusErr FailedPrecondition ''idempotency key reuse with different parameters''), db2)
                    else (Inr (order_of_row env existing), db2))
             else (Inl e, db1)
         | (Inr row, db1) \<Rightarrow> CreateOrder_emit env req row db1))"

definition Handlers_CreateOrder :: "o_env \<Rightarrow> CreateOrderRequest \<Rightarrow> orders_db \<Rightarrow> (error + Order) \<times> orders_db" where
  "Handlers_CreateOrder env req db =
     (if co_UserId req = '''' then (Inl (StatusErr InvalidArgument ''user_id is required''), db)
      else if co_Amount req \<le> 0 then (Inl (StatusErr InvalidArgument ''amount must be > 0''), db)
      else if co_Description req = '''' then (Inl (StatusErr InvalidArgument ''description is required''), db)
      else (case WithTx (oe_faults env) (CreateOrder_tx env req) db of
              (Inl e, db') \<Rightarrow> (Inl (to_status ''failed to create order'' e), db')
            | (Inr resp, db') \<Rightarrow> (Inr resp, db')))"

text \<open>A sequence of operations on the orders database, each with its own environment.\<close>

datatype orders_op =
    Op_CreateOrder o_env CreateOrderRequest
  | Op_PaymentResult o_env kafka_message
  | Op_publishOnce o_env int

fun orders_step :: "orders_op \<Rightarrow> orders_db \<Rightarrow> orders_db" where
  "orders_step (Op_CreateOrder env req) db = snd (Handlers_CreateOrder env req db)"
| "orders_step (Op_PaymentResult env m) db = snd (PaymentResultConsumer_handleMessage env m db)"
| "orders_step (Op_publishOnce env batch) db = snd (publishOnce env batch db)"

fun orders_run :: "orders_op list \<Rightarrow> orders_db \<Rightarrow> orders_db" where
  "orders_run [] db = db"
| "orders_run (x # xs) db = orders_run xs (orders_step x db)"

text \<open>The status of an order in the table, if the order is there.\<close>

definition status_of :: "orders_db \<Rightarrow> uuid \<Rightarrow> string option" where
  "status_of db oid = map_option or_status (find (\<lambda>r. or_order_id r = oid) (orders db))"

section \<open>The specification's wording and sample inputs\<close>

text \<open>
  The classification of a debit as the specification words it: operation inserted gives
  \<open>SUCCESS\<close>; not inserted and no account row gives \<open>FAIL_NO_ACCOUNT\<close>; not inserted and an
  account row gives \<open>FAIL_NOT_ENOUGH_FUNDS\<close>.
\<close>

definition spec_classify :: "bool \<Rightarrow> bool \<Rightarrow> PaymentResultStatus \<times> string" where
  "spec_classify op_inserted account_exists =
     (if op_inserted then (PAYMENT_RESULT_STATUS_SUCCESS, '''')
      else if \<not> account_exists then (PAYMENT_RESULT_STATUS_FAIL_NO_ACCOUNT, ''account not found'')
      else (PAYMENT_RESULT_STATUS_FAIL_NOT_ENOUGH_FUNDS, ''not enough funds''))"

text \<open>A payments environment, a message and a database to run the handlers on.\<close>

definition ex_ev :: PaymentRequested where
  "ex_ev = \<lparr>rq_EventId = ''e1'', rq_OccurredAt = 0, rq_OrderId = ''o1'', rq_UserId = ''u1'', rq_Amount = 300\<rparr>"

definition ex_p_env :: p_env where
  "ex_p_env =
     \<lparr>pe_Unmarshal = (\<lambda>b. if b = ''m1'' then Some ex_ev else None),
      pe_Marshal = (\<lambda>r. Some (rs_OrderId r @ (if rs_Status r = PAYMENT_RESULT_STATUS_SUCCESS then ''+'' else ''-''))),
      pe_uuid_Parse = (\<lambda>s. if s = ''e1'' then Some 1 else if s = ''o1'' then Some 2 else None),
      pe_uuid_String = (\<lambda>u. if u = 2 then ''o1'' else ''?''),
      pe_uuid_NewString = ''e2'',
      pe_now = 7,
      pe_faults = no_faults\<rparr>"

definition ex_msg :: kafka_message where
  "ex_msg = \<lparr>Key = ''o1'', Value = ''m1''\<rparr>"

definition ex_payments_db :: payments_db where
  "ex_payments_db = empty_payments_db\<lparr>accounts := [''u1'' \<mapsto> 1000]\<rparr>"

text \<open>An orders environment, a \<open>PaymentResult\<close> message and a database with one order.\<close>

definition ex_res_ev :: PaymentResult where
  "ex_res_ev = \<lparr>rs_EventId = ''e2'', rs_OccurredAt = 7, rs_OrderId = ''o1'', rs_UserId = ''u1'',
                rs_Status = PAYMENT_RESULT_STATUS_SUCCESS, rs_Reason = ''''\<rparr>"

definition ex_res_ev2 :: PaymentResult where
  "ex_res_ev2 = \<lparr>rs_EventId = ''e3'', rs_OccurredAt = 8, rs_OrderId = ''o1'', rs_UserId = '''',
                 rs_Status = PAYMENT_RESULT_STATUS_FAIL_NOT_ENOUGH_FUNDS, rs_Reason = ''not enough funds''\<rparr>"

definition ex_o_env :: o_env where
  "ex_o_env =
     \<lparr>oe_Unmarshal = (\<lambda>b. if b = ''r1'' then Some ex_res_ev
                           else if b = ''r2'' then Some ex_res_ev2 else None),
      oe_Marshal = (\<lambda>e. Some (rq_OrderId e)),
      oe_uuid_Parse = (\<lambda>s. if s = ''e2'' then Some 3 else if s = ''o1'' then Some 2
                            else if s = ''e3'' then Some 4 else None),
      oe_uuid_String = (\<lambda>u. if u = 2 then ''o1'' else ''?''),
      oe_uuid_NewString = ''e1'',
      oe_now = 9,
      oe_new_order_id = 2,
      oe_WriteMessages = (\<lambda>i m. None),
      oe_faults = no_faults\<rparr>"

definition ex_o_msg :: kafka_message where
  "ex_o_msg = \<lparr>Key = ''o1'', Value = ''r1''\<rparr>"

definition ex_o_msg2 :: kafka_message where
  "ex_o_msg2 = \<lparr>Key = ''o1'', Value = ''r2''\<rparr>"

definition ex_order :: order_row where
  "ex_order = \<lparr>or_order_id = 2, or_user_id = ''u1'', or_amount = 300, or_description = ''book'',
               or_status = ''NEW'', or_created_at = 5, or_idempotency_key = Some ''k3''\<rparr>"

definition ex_orders_db :: orders_db where
  "ex_orders_db =
     \<lparr>orders = [ex_order], o_inbox = {},
      o_outbox = [new_outbox_row 1 5 ''payments.payment_requested.v1'' ''o1'' ''o1''],
      o_outbox_seq = 1\<rparr>"

text \<open>The invariant on balances, and the happy path of the specification as a run.\<close>

definition balances_nonneg :: "payments_db \<Rightarrow> bool" where
  "balances_nonneg db \<longleftrightarrow> (\<forall>u b. accounts db u = Some b \<longrightarrow> 0 \<le> b)"

definition ex_payments_ops :: "payments_op list" where
  "ex_payments_ops =
     [Op_CreateAccount no_faults \<lparr>ca_UserId = ''u1'', ca_IdempotencyKey = ''k1''\<rparr>,
      Op_TopUp no_faults \<lparr>tu_UserId = ''u1'', tu_Amount = 1000, tu_IdempotencyKey = ''k2''\<rparr>,
      Op_PaymentRequested ex_p_env ''payments.payment_result.v1'' ex_msg]"

text \<open>A keyed top-up and the database after it has run once on \<open>ex_payments_db\<close>.\<close>

definition ex_topup :: TopUpRequest where
  "ex_topup = \<lparr>tu_UserId = ''u1'', tu_Amount = 50, tu_IdempotencyKey = ''k6''\<rparr>"

definition ex_topup_db :: payments_db where
  "ex_topup_db =
     ex_payments_db\<lparr>accounts := [''u1'' \<mapsto> 1050],
                    topup_idempotency := [(''u1'', ''k6'') \<mapsto> \<lparr>ti_amount = 50, ti_balance_after = 1050\<rparr>]\<rparr>"

text \<open>
  The messages each consumer drops before opening a transaction, read off the checks of
  the two \<open>handleMessage\<close> functions.
\<close>

definition PaymentRequested_poison :: "p_env \<Rightarrow> kafka_message \<Rightarrow> bool" where
  "PaymentRequested_poison env m =
     (case pe_Unmarshal env (Value m) of
        None \<Rightarrow> True
      | Some ev \<Rightarrow> pe_uuid_Parse env (rq_EventId ev) = None \<or> pe_uuid_Parse env (rq_OrderId ev) = None \<or>
                  rq_UserId ev = '''' \<or> rq_Amount ev \<le> 0)"

definition PaymentResult_poison :: "o_env \<Rightarrow> kafka_message \<Rightarrow> bool" where
  "PaymentResult_poison env m =
     (case oe_Unmarshal env (Value m) of
        None \<Rightarrow> True
      | Some ev \<Rightarrow> oe_uuid_Parse env (rs_EventId ev) = None \<or> oe_uuid_Parse env (rs_OrderId ev) = None)"

text \<open>An order creation with a key, and a mismatching replay of it.\<close>

definition ex_create :: CreateOrderRequest where
  "ex_create = \<lparr>co_UserId = ''u1'', co_Amount = 300, co_Description = ''book'', co_IdempotencyKey = ''k3''\<rparr>"

text \<open>
  The publisher pass as the specification words it: the batch is the oldest unsent rows
  up to the batch size; a row whose publish fails gets \<open>attempts\<close> incremented and
  \<open>last_error\<close> recorded, a row whose publish succeeds gets \<open>sent_at\<close> set.
\<close>

definition spec_batch :: "int \<Rightarrow> orders_db \<Rightarrow> outbox_row list" where
  "spec_batch batch db =
     take (nat (to_int32 batch)) (sort_key ob_id (filter (\<lambda>r. ob_sent_at r = None) (o_outbox db)))"

definition spec_publish_row :: "o_env \<Rightarrow> outbox_row \<Rightarrow> outbox_row" where
  "spec_publish_row env r =
     (case oe_WriteMessages env (ob_id r) \<lparr>Key = ob_kafka_key r, Value = ob_payload r\<rparr> of
        Some err \<Rightarrow> r\<lparr>ob_attempts := ob_attempts r + 1, ob_last_error := Some err\<rparr>
      | None \<Rightarrow> r\<lparr>ob_sent_at := Some (oe_now env)\<rparr>)"

text \<open>An outbox with one sent row and two unsent ones, and a bus that refuses the row 2.\<close>

definition ex_outbox_db :: orders_db where
  "ex_outbox_db =
     ex_orders_db\<lparr>o_outbox :=
        [(new_outbox_row 1 5 ''payments.payment_requested.v1'' ''o1'' ''o1'')\<lparr>ob_sent_at := Some 6\<rparr>,
         new_outbox_row 2 6 ''payments.payment_requested.v1'' ''o2'' ''o2'',
         new_outbox_row 3 7 ''payments.payment_requested.v1'' ''o3'' ''o3''],
        o_outbox_seq := 3\<rparr>"

definition ex_pub_env :: o_env where
  "ex_pub_env = ex_o_env\<lparr>oe_WriteMessages := (\<lambda>i m. if i = 2 then Some ''broker down'' else None)\<rparr>"

text \<open>
  The empty orders database, the response to \<open>ex_create\<close> on it, the database after it,
  and a run that delivers the payment result and publishes the outbox.
\<close>

definition empty_orders_db :: orders_db where
  "empty_orders_db = \<lparr>orders = [], o_inbox = {}, o_outbox = [], o_outbox_seq = 0\<rparr>"

definition ex_created :: Order where
  "ex_created = \<lparr>OrderId = ''o1'', UserId = ''u1'', Amount = 300, Description = ''book'',
                 Status = ORDER_STATUS_NEW, CreatedAt = 9\<rparr>"

definition ex_created_db :: orders_db where
  "ex_created_db =
     \<lparr>orders = [ex_order\<lparr>or_created_at := 9\<rparr>], o_inbox = {},
      o_outbox = [new_outbox_row 1 9 ''payments.payment_requested.v1'' ''o1'' ''o1''],
      o_outbox_seq = 1\<rparr>"

definition ex_orders_ops :: "orders_op list" where
  "ex_orders_ops = [Op_PaymentResult ex_o_env ex_o_msg, Op_publishOnce ex_o_env 50]"

section \<open>Properties\<close>

subsection \<open>Unfolding sets\<close>

lemmas ex_p_defs = ex_p_env_def ex_payments_db_def empty_payments_db_def ex_msg_def ex_ev_def

lemmas p_consumer_defs = PaymentRequestedConsumer_handleMessage_def WithTx_def PaymentRequested_tx_def
  p_InsertInboxCheck_def TryDeductOnce_def AccountExists_def p_InsertOutbox_def no_faults_def

subsection \<open>The payments consumer on a new event\<close>

lemma PaymentRequested_tx_fresh:
  assumes "p_inbox db msgID = None" "pe_faults env = no_faults"
  shows "PaymentRequested_tx env topic ev msgID orderID db =
     (let db1 = db\<lparr>p_inbox := (p_inbox db)(msgID \<mapsto> orderID)\<rparr>;
          ins = (case accounts db (rq_UserId ev) of None \<Rightarrow> False
                 | Some b \<Rightarrow> rq_Amount ev \<le> b \<and> payment_operations db orderID = None);
          db2 = (if ins then snd (TryDeductOnce no_faults (pe_now env) orderID (rq_UserId ev) (rq_Amount ev) db1) else db1);
          sr = spec_classify ins (accounts db (rq_UserId ev) \<noteq> None)
      in case pe_Marshal env \<lparr>rs_EventId = pe_uuid_NewString env, rs_OccurredAt = pe_now env,
                               rs_OrderId = pe_uuid_String env orderID, rs_UserId = rq_UserId ev,
                               rs_Status = fst sr, rs_Reason = snd sr\<rparr> of
           None \<Rightarrow> (Inl MarshalErr, db2)
         | Some payload \<Rightarrow> (Inr (), db2\<lparr>p_outbox := p_outbox db @ [new_outbox_row (p_outbox_seq db + 1) (pe_now env) topic (pe_uuid_String env orderID) payload],
               p_outbox_seq := p_outbox_seq db + 1\<rparr>))"
  using assms
  by (simp add: PaymentRequested_tx_def p_InsertInboxCheck_def TryDeductOnce_def AccountExists_def
        p_InsertOutbox_def no_faults_def Let_def spec_classify_def split: option.splits)

lemma ex_handle:
  "PaymentRequestedConsumer_handleMessage ex_p_env ''payments.payment_result.v1'' ex_msg ex_payments_db
     = (None, ex_payments_db\<lparr>accounts := [''u1'' \<mapsto> 700],
          payment_operations := [2 \<mapsto> \<lparr>po_user_id = ''u1'', po_amount = 300, po_created_at = 7\<rparr>],
          p_inbox := [1 \<mapsto> 2],
          p_outbox := [new_outbox_row 1 7 ''payments.payment_result.v1'' ''o1'' ''o1+''],
          p_outbox_seq := 1\<rparr>)"
  by (simp add: ex_p_defs p_consumer_defs)

text \<open>
  C2. A \<open>PaymentRequested\<close> event that passes validation and whose \<open>event_id\<close> has no inbox
  row is classified as the specification says (operation row inserted: \<open>SUCCESS\<close>; not
  inserted and no account row: \<open>FAIL_NO_ACCOUNT\<close>; not inserted and an account row:
  \<open>FAIL_NOT_ENOUGH_FUNDS\<close>), and the transaction appends exactly one outbox row, with
  \<open>kafka_key\<close> the order id and the marshalled \<open>PaymentResult\<close> of that status as payload.
  No statement fails and the result marshals.
\<close>

theorem debit_classification:
  assumes "pe_Unmarshal env (Value m) = Some ev"
    and "pe_uuid_Parse env (rq_EventId ev) = Some msgID"
    and "pe_uuid_Parse env (rq_OrderId ev) = Some orderID"
    and "rq_UserId ev \<noteq> ''''" and "0 < rq_Amount ev"
    and "p_inbox db msgID = None"
    and "pe_faults env = no_faults"
    and "\<forall>x. pe_Marshal env x \<noteq> None"
    and "PaymentRequestedConsumer_handleMessage env topic m db = (r, db')"
  shows "r = None \<and>
     (\<exists>payload.
        pe_Marshal env
          \<lparr>rs_EventId = pe_uuid_NewString env, rs_OccurredAt = pe_now env,
           rs_OrderId = pe_uuid_String env orderID, rs_UserId = rq_UserId ev,
           rs_Status = fst (spec_classify (payment_operations db orderID = None \<and> payment_operations db' orderID \<noteq> None)
                                          (accounts db' (rq_UserId ev) \<noteq> None)),
           rs_Reason = snd (spec_classify (payment_operations db orderID = None \<and> payment_operations db' orderID \<noteq> None)
                                          (accounts db' (rq_UserId ev) \<noteq> None))\<rparr> = Some payload \<and>
        p_outbox db' = p_outbox db @
          [new_outbox_row (p_outbox_seq db + 1) (pe_now env) topic (pe_uuid_String env orderID) payload])"
proof -
  let ?ins = "case accounts db (rq_UserId ev) of None \<Rightarrow> False
                 | Some b \<Rightarrow> rq_Amount ev \<le> b \<and> payment_operations db orderID = None"
  let ?sr = "spec_classify ?ins (accounts db (rq_UserId ev) \<noteq> None)"
  let ?res = "\<lparr>rs_EventId = pe_uuid_NewString env, rs_OccurredAt = pe_now env,
                               rs_OrderId = pe_uuid_String env orderID, rs_UserId = rq_UserId ev,
                               rs_Status = fst ?sr, rs_Reason = snd ?sr\<rparr>"
  let ?db2 = "if ?ins then snd (TryDeductOnce no_faults (pe_now env) orderID (rq_UserId ev) (rq_Amount ev)
                                  (db\<lparr>p_inbox := (p_inbox db)(msgID \<mapsto> orderID)\<rparr>))
              else db\<lparr>p_inbox := (p_inbox db)(msgID \<mapsto> orderID)\<rparr>"
  from assms(8) obtain payload where pl: "pe_Marshal env ?res = Some payload"
    by (metis option.exhaust)
  let ?db4 = "?db2\<lparr>p_outbox := p_outbox db @
                      [new_outbox_row (p_outbox_seq db + 1) (pe_now env) topic (pe_uuid_String env orderID) payload],
                    p_outbox_seq := p_outbox_seq db + 1\<rparr>"
  have tx: "PaymentRequested_tx env topic ev msgID orderID db = (Inr (), ?db4)"
    using PaymentRequested_tx_fresh[OF assms(6,7), of topic ev orderID] pl by (simp add: Let_def)
  have h: "PaymentRequestedConsumer_handleMessage env topic m db = (None, ?db4)"
    using assms(1-5,7) by (simp add: PaymentRequestedConsumer_handleMessage_def WithTx_def tx no_faults_def)
  have ops: "(payment_operations db orderID = None \<and> payment_operations db' orderID \<noteq> None) = ?ins"
    using h assms(9) by (auto simp: TryDeductOnce_def no_faults_def split: option.splits)
  have acc: "(accounts db' (rq_UserId ev) \<noteq> None) = (accounts db (rq_UserId ev) \<noteq> None)"
    using h assms(9) by (auto simp: TryDeductOnce_def no_faults_def split: option.splits)
  show ?thesis
    using h assms(9) pl unfolding ops acc by auto
qed

theorem debit_classification_witness:
  "pe_Unmarshal ex_p_env (Value ex_msg) = Some ex_ev \<and>
   pe_uuid_Parse ex_p_env (rq_EventId ex_ev) = Some 1 \<and>
   pe_uuid_Parse ex_p_env (rq_OrderId ex_ev) = Some 2 \<and>
   rq_UserId ex_ev \<noteq> '''' \<and> 0 < rq_Amount ex_ev \<and>
   p_inbox ex_payments_db 1 = None \<and>
   pe_faults ex_p_env = no_faults \<and>
   (\<forall>x. pe_Marshal ex_p_env x \<noteq> None) \<and>
   fst (PaymentRequestedConsumer_handleMessage ex_p_env ''payments.payment_result.v1'' ex_msg ex_payments_db) = None \<and>
   p_outbox (snd (PaymentRequestedConsumer_handleMessage ex_p_env ''payments.payment_result.v1'' ex_msg ex_payments_db))
     = [new_outbox_row 1 7 ''payments.payment_result.v1'' ''o1'' ''o1+'']"
proof -
  let ?h = "PaymentRequestedConsumer_handleMessage ex_p_env ''payments.payment_result.v1'' ex_msg ex_payments_db"
  have h1: "pe_Unmarshal ex_p_env (Value ex_msg) = Some ex_ev" by (simp add: ex_p_defs)
  have h2: "pe_uuid_Parse ex_p_env (rq_EventId ex_ev) = Some 1" by (simp add: ex_p_defs)
  have h3: "pe_uuid_Parse ex_p_env (rq_OrderId ex_ev) = Some 2" by (simp add: ex_p_defs)
  have h4: "rq_UserId ex_ev \<noteq> ''''" and h5: "0 < rq_Amount ex_ev" by (simp_all add: ex_p_defs)
  have h6: "p_inbox ex_payments_db 1 = None" by (simp add: ex_p_defs)
  have h7: "pe_faults ex_p_env = no_faults" by (simp add: ex_p_defs)
  have h8: "\<forall>x. pe_Marshal ex_p_env x \<noteq> None" by (simp add: ex_p_defs)
  have h9: "?h = (fst ?h, snd ?h)" by simp
  note c = debit_classification [OF h1 h2 h3 h4 h5 h6 h7 h8 h9]
  have "payment_operations ex_payments_db 2 = None" by (simp add: ex_p_defs)
  moreover have "payment_operations (snd ?h) 2 \<noteq> None"
    by (simp add: ex_handle)
  ultimately show ?thesis
    using c h1 h2 h3 h4 h5 h6 h7 h8
    by (simp add: spec_classify_def) (simp add: ex_p_defs)
qed

subsection \<open>Inbox deduplication\<close>

lemmas ex_o_defs = ex_o_env_def ex_orders_db_def ex_o_msg_def ex_res_ev_def ex_order_def
  ex_res_ev2_def ex_o_msg2_def

lemmas o_consumer_defs = PaymentResultConsumer_handleMessage_def WithTx_def PaymentResult_tx_def
  o_InsertInboxCheck_def UpdateOrderStatusIfNew_def no_faults_def

lemma PaymentRequested_tx_Inr:
  assumes "PaymentRequested_tx env topic ev msgID orderID db = (Inr u, db2)"
  shows "(p_inbox db msgID \<noteq> None \<and> db2 = db) \<or>
         (p_inbox db msgID = None \<and> p_inbox db2 msgID = Some orderID \<and>
          length (p_outbox db2) = Suc (length (p_outbox db)))"
proof (cases "p_inbox db msgID")
  case (Some a)
  with assms show ?thesis
    by (auto simp: PaymentRequested_tx_def p_InsertInboxCheck_def split: if_splits)
next
  case None
  let ?db1 = "db\<lparr>p_inbox := (p_inbox db)(msgID \<mapsto> orderID)\<rparr>"
  have td: "p_inbox (snd (TryDeductOnce f n orderID us am ?db1)) = p_inbox ?db1 \<and>
            p_outbox (snd (TryDeductOnce f n orderID us am ?db1)) = p_outbox db" for f n us am
    by (simp add: TryDeductOnce_def split: option.splits)
  from assms None show ?thesis
    using td[of "pe_faults env" "pe_now env" "rq_UserId ev" "rq_Amount ev"]
    by (auto simp: PaymentRequested_tx_def p_InsertInboxCheck_def AccountExists_def p_InsertOutbox_def
             split: if_splits prod.splits sum.splits option.splits)
qed

lemma PaymentRequested_handle_cases:
  assumes "pe_Unmarshal env (Value m) = Some ev"
    and "pe_uuid_Parse env (rq_EventId ev) = Some msgID"
    and "pe_uuid_Parse env (rq_OrderId ev) = Some orderID"
    and "PaymentRequestedConsumer_handleMessage env topic m db = (r, db')"
  shows "db' = db \<or>
         (p_inbox db msgID = None \<and> p_inbox db' msgID = Some orderID \<and>
          length (p_outbox db') = Suc (length (p_outbox db)))"
proof -
  obtain x db2 where tx: "PaymentRequested_tx env topic ev msgID orderID db = (x, db2)"
    by (cases "PaymentRequested_tx env topic ev msgID orderID db")
  show ?thesis
  proof (cases x)
    case (Inl e)
    with assms tx show ?thesis
      by (auto simp: PaymentRequestedConsumer_handleMessage_def WithTx_def split: if_splits)
  next
    case (Inr u)
    with tx PaymentRequested_tx_Inr[of env topic ev msgID orderID db u db2] assms show ?thesis
      by (auto simp: PaymentRequestedConsumer_handleMessage_def WithTx_def split: if_splits)
  qed
qed

lemma PaymentRequested_handle_dup:
  assumes "pe_Unmarshal env (Value m) = Some ev"
    and "pe_uuid_Parse env (rq_EventId ev) = Some msgID"
    and "pe_uuid_Parse env (rq_OrderId ev) = Some orderID"
    and "p_inbox db msgID \<noteq> None"
    and "pe_faults env = no_faults"
  shows "PaymentRequestedConsumer_handleMessage env topic m db = (None, db)"
  using assms by (auto simp: p_consumer_defs)

lemma PaymentResult_handle_cases:
  assumes "oe_Unmarshal env (Value m) = Some ev"
    and "oe_uuid_Parse env (rs_EventId ev) = Some msgID"
    and "oe_uuid_Parse env (rs_OrderId ev) = Some orderID"
    and "PaymentResultConsumer_handleMessage env m db = (r, db')"
  shows "db' = db \<or>
         (msgID \<notin> o_inbox db \<and>
          db' = snd (UpdateOrderStatusIfNew no_faults orderID
                       (if rs_Status ev = PAYMENT_RESULT_STATUS_SUCCESS then ''FINISHED'' else ''CANCELLED'')
                       (db\<lparr>o_inbox := insert msgID (o_inbox db)\<rparr>)))"
  using assms
  by (auto simp: o_consumer_defs Let_def split: if_splits)

lemma PaymentResult_handle_dup:
  assumes "oe_Unmarshal env (Value m) = Some ev"
    and "oe_uuid_Parse env (rs_EventId ev) = Some msgID"
    and "oe_uuid_Parse env (rs_OrderId ev) = Some orderID"
    and "msgID \<in> o_inbox db"
    and "oe_faults env = no_faults"
  shows "PaymentResultConsumer_handleMessage env m db = (None, db)"
  using assms by (auto simp: o_consumer_defs)

text \<open>
  C1. For an event whose \<open>event_id\<close> already has an inbox row, either consumer leaves
  its database as it was and, when no statement fails, returns success. Whatever
  statements fail: in payments the accounts, the operations or the outbox change exactly
  when the inbox row of the event is newly inserted; in orders the orders table changes
  only when the inbox row is newly inserted, and when it is, the committed orders table is
  the one the guarded status update produces.
\<close>

theorem inbox_dedup:
  assumes "pe_Unmarshal penv (Value pm) = Some pev"
    and "pe_uuid_Parse penv (rq_EventId pev) = Some pid"
    and "pe_uuid_Parse penv (rq_OrderId pev) = Some porder"
    and "PaymentRequestedConsumer_handleMessage penv topic pm pdb = (pr, pdb')"
    and "oe_Unmarshal oenv (Value om) = Some oev"
    and "oe_uuid_Parse oenv (rs_EventId oev) = Some oid"
    and "oe_uuid_Parse oenv (rs_OrderId oev) = Some oorder"
    and "PaymentResultConsumer_handleMessage oenv om odb = (ores, odb')"
  shows "(p_inbox pdb pid \<noteq> None \<longrightarrow> pdb' = pdb \<and> (pe_faults penv = no_faults \<longrightarrow> pr = None)) \<and>
         ((accounts pdb' \<noteq> accounts pdb \<or> payment_operations pdb' \<noteq> payment_operations pdb \<or>
           p_outbox pdb' \<noteq> p_outbox pdb)
            \<longleftrightarrow> (p_inbox pdb pid = None \<and> p_inbox pdb' pid \<noteq> None)) \<and>
         (oid \<in> o_inbox odb \<longrightarrow> odb' = odb \<and> (oe_faults oenv = no_faults \<longrightarrow> ores = None)) \<and>
         (orders odb' \<noteq> orders odb \<longrightarrow> oid \<notin> o_inbox odb \<and> oid \<in> o_inbox odb') \<and>
         (oid \<notin> o_inbox odb \<and> oid \<in> o_inbox odb' \<longrightarrow>
            orders odb' = orders (snd (UpdateOrderStatusIfNew no_faults oorder
                       (if rs_Status oev = PAYMENT_RESULT_STATUS_SUCCESS then ''FINISHED'' else ''CANCELLED'') odb)))"
proof -
  note pc = PaymentRequested_handle_cases[OF assms(1-4)]
  note oc = PaymentResult_handle_cases[OF assms(5-8)]
  have p1: "p_inbox pdb pid \<noteq> None \<longrightarrow> pdb' = pdb \<and> (pe_faults penv = no_faults \<longrightarrow> pr = None)"
    using pc PaymentRequested_handle_dup[OF assms(1-3), of pdb topic] assms(4) by auto
  have p2: "(accounts pdb' \<noteq> accounts pdb \<or> payment_operations pdb' \<noteq> payment_operations pdb \<or>
           p_outbox pdb' \<noteq> p_outbox pdb)
            \<longleftrightarrow> (p_inbox pdb pid = None \<and> p_inbox pdb' pid \<noteq> None)"
    using pc by auto
  have o1: "oid \<in> o_inbox odb \<longrightarrow> odb' = odb \<and> (oe_faults oenv = no_faults \<longrightarrow> ores = None)"
    using oc PaymentResult_handle_dup[OF assms(5-7), of odb] assms(8) by auto
  have o2: "orders odb' \<noteq> orders odb \<longrightarrow> oid \<notin> o_inbox odb \<and> oid \<in> o_inbox odb'"
    using oc by (auto simp: UpdateOrderStatusIfNew_def no_faults_def)
  have o3: "oid \<notin> o_inbox odb \<and> oid \<in> o_inbox odb' \<longrightarrow>
            orders odb' = orders (snd (UpdateOrderStatusIfNew no_faults oorder
                       (if rs_Status oev = PAYMENT_RESULT_STATUS_SUCCESS then ''FINISHED'' else ''CANCELLED'') odb))"
    using oc by (auto simp: UpdateOrderStatusIfNew_def no_faults_def)
  from p1 p2 o1 o2 o3 show ?thesis by blast
qed

lemma ex_o_handle:
  "PaymentResultConsumer_handleMessage ex_o_env ex_o_msg ex_orders_db
     = (None, ex_orders_db\<lparr>orders := [ex_order\<lparr>or_status := ''FINISHED''\<rparr>], o_inbox := {3}\<rparr>)"
  by (simp add: ex_o_defs o_consumer_defs)

theorem inbox_dedup_witness:
  "p_inbox (ex_payments_db\<lparr>p_inbox := [1 \<mapsto> 2]\<rparr>) 1 \<noteq> None \<and>
   PaymentRequestedConsumer_handleMessage ex_p_env ''t'' ex_msg (ex_payments_db\<lparr>p_inbox := [1 \<mapsto> 2]\<rparr>)
     = (None, ex_payments_db\<lparr>p_inbox := [1 \<mapsto> 2]\<rparr>) \<and>
   3 \<in> o_inbox (ex_orders_db\<lparr>o_inbox := {3}\<rparr>) \<and>
   PaymentResultConsumer_handleMessage ex_o_env ex_o_msg (ex_orders_db\<lparr>o_inbox := {3}\<rparr>)
     = (None, ex_orders_db\<lparr>o_inbox := {3}\<rparr>) \<and>
   p_inbox ex_payments_db 1 = None \<and>
   p_inbox (snd (PaymentRequestedConsumer_handleMessage ex_p_env ''payments.payment_result.v1'' ex_msg ex_payments_db)) 1 \<noteq> None \<and>
   p_outbox (snd (PaymentRequestedConsumer_handleMessage ex_p_env ''payments.payment_result.v1'' ex_msg ex_payments_db))
     \<noteq> p_outbox ex_payments_db \<and>
   3 \<notin> o_inbox ex_orders_db \<and>
   3 \<in> o_inbox (snd (PaymentResultConsumer_handleMessage ex_o_env ex_o_msg ex_orders_db)) \<and>
   orders (snd (PaymentResultConsumer_handleMessage ex_o_env ex_o_msg ex_orders_db))
     = [ex_order\<lparr>or_status := ''FINISHED''\<rparr>]"
proof -
  let ?pdup = "ex_payments_db\<lparr>p_inbox := [1 \<mapsto> 2]\<rparr>"
  let ?odup = "ex_orders_db\<lparr>o_inbox := {3}\<rparr>"
  let ?hp = "\<lambda>t db. PaymentRequestedConsumer_handleMessage ex_p_env t ex_msg db"
  let ?ho = "\<lambda>db. PaymentResultConsumer_handleMessage ex_o_env ex_o_msg db"
  have h1: "pe_Unmarshal ex_p_env (Value ex_msg) = Some ex_ev" by (simp add: ex_p_defs)
  have h2: "pe_uuid_Parse ex_p_env (rq_EventId ex_ev) = Some 1" by (simp add: ex_p_defs)
  have h3: "pe_uuid_Parse ex_p_env (rq_OrderId ex_ev) = Some 2" by (simp add: ex_p_defs)
  have h5: "oe_Unmarshal ex_o_env (Value ex_o_msg) = Some ex_res_ev" by (simp add: ex_o_defs)
  have h6: "oe_uuid_Parse ex_o_env (rs_EventId ex_res_ev) = Some 3" by (simp add: ex_o_defs)
  have h7: "oe_uuid_Parse ex_o_env (rs_OrderId ex_res_ev) = Some 2" by (simp add: ex_o_defs)
  have p: "?hp t db = (fst (?hp t db), snd (?hp t db))" for t db by simp
  have o: "?ho db = (fst (?ho db), snd (?ho db))" for db by simp
  note dup = inbox_dedup [OF h1 h2 h3 p [of "''t''" ?pdup] h5 h6 h7 o [of ?odup]]
  note new = inbox_dedup [OF h1 h2 h3 p [of "''payments.payment_result.v1''" ex_payments_db] h5 h6 h7 o [of ex_orders_db]]
  have f: "pe_faults ex_p_env = no_faults" "oe_faults ex_o_env = no_faults"
    by (simp_all add: ex_p_defs ex_o_defs)
  have d1: "p_inbox ?pdup 1 \<noteq> None" and d2: "3 \<in> o_inbox ?odup" by simp_all
  have n1: "p_inbox ex_payments_db 1 = None" and n2: "3 \<notin> o_inbox ex_orders_db"
    by (simp_all add: ex_p_defs ex_o_defs)
  have n3: "p_inbox (snd (?hp ''payments.payment_result.v1'' ex_payments_db)) 1 \<noteq> None"
    by (simp add: ex_handle)
  have n4: "3 \<in> o_inbox (snd (?ho ex_orders_db))"
    by (simp add: ex_o_handle)
  have a: "?hp ''t'' ?pdup = (None, ?pdup)" "?ho ?odup = (None, ?odup)"
    using dup d1 d2 f by (simp_all add: prod_eq_iff)
  have b: "p_outbox (snd (?hp ''payments.payment_result.v1'' ex_payments_db)) \<noteq> p_outbox ex_payments_db"
    using new n1 n3 by (simp add: ex_handle) (simp add: ex_p_defs)
  have c: "orders (snd (?ho ex_orders_db)) = [ex_order\<lparr>or_status := ''FINISHED''\<rparr>]"
    using new n2 n4 by (simp add: ex_o_defs UpdateOrderStatusIfNew_def no_faults_def)
  from a b c d1 d2 n1 n2 n3 n4 show ?thesis by simp
qed

subsection \<open>The order state machine\<close>

lemma find_map_same_key:
  assumes "\<And>r. P (f r) = P r"
  shows "find P (map f xs) = map_option f (find P xs)"
  using assms by (induction xs) auto

lemma find_append_Some:
  "find P xs = Some r \<Longrightarrow> find P (xs @ ys) = Some r"
  by (induction xs) (auto split: if_splits)

lemma find_Some_P:
  "find P xs = Some r \<Longrightarrow> P r"
  by (induction xs) (auto split: if_splits)

lemma status_of_update:
  "status_of (snd (UpdateOrderStatusIfNew flt orderID ns db)) oid =
     (if flt Q_UpdateOrderStatusIfNew then status_of db oid
      else if oid = orderID \<and> status_of db oid = Some ''NEW'' then Some ns
      else status_of db oid)"
proof (cases "flt Q_UpdateOrderStatusIfNew")
  case True
  then show ?thesis by (simp add: UpdateOrderStatusIfNew_def)
next
  case False
  let ?f = "\<lambda>r. if or_order_id r = orderID \<and> or_status r = ''NEW'' then r\<lparr>or_status := ns\<rparr> else r"
  let ?P = "\<lambda>r. or_order_id r = oid"
  have pf: "?P (?f r) = ?P r" for r :: order_row by simp
  have fm: "find ?P (map ?f (orders db)) = map_option ?f (find ?P (orders db))"
    using pf by (rule find_map_same_key)
  have upd: "status_of (snd (UpdateOrderStatusIfNew flt orderID ns db)) oid =
               map_option or_status (map_option ?f (find ?P (orders db)))"
    using False by (simp add: status_of_def UpdateOrderStatusIfNew_def fm)
  show ?thesis
  proof (cases "find ?P (orders db)")
    case None
    with False show ?thesis unfolding upd by (simp add: status_of_def)
  next
    case (Some r)
    then have "or_order_id r = oid" by (rule find_Some_P)
    with False Some show ?thesis unfolding upd by (simp add: status_of_def)
  qed
qed

lemma status_of_inbox [simp]:
  "status_of (db\<lparr>o_inbox := X\<rparr>) oid = status_of db oid"
  by (simp add: status_of_def)

lemma PaymentResult_handle_any:
  "snd (PaymentResultConsumer_handleMessage env m db) = db \<or>
   (\<exists>orderID msgID ns. (ns = ''FINISHED'' \<or> ns = ''CANCELLED'') \<and>
      snd (PaymentResultConsumer_handleMessage env m db) =
        snd (UpdateOrderStatusIfNew no_faults orderID ns (db\<lparr>o_inbox := insert msgID (o_inbox db)\<rparr>)))"
proof (cases "\<exists>ev msgID orderID. oe_Unmarshal env (Value m) = Some ev \<and>
                oe_uuid_Parse env (rs_EventId ev) = Some msgID \<and> oe_uuid_Parse env (rs_OrderId ev) = Some orderID")
  case True
  then obtain ev msgID orderID where h: "oe_Unmarshal env (Value m) = Some ev"
      "oe_uuid_Parse env (rs_EventId ev) = Some msgID" "oe_uuid_Parse env (rs_OrderId ev) = Some orderID"
    by blast
  have "PaymentResultConsumer_handleMessage env m db =
          (fst (PaymentResultConsumer_handleMessage env m db), snd (PaymentResultConsumer_handleMessage env m db))"
    by simp
  from PaymentResult_handle_cases[OF h this] show ?thesis
    by (cases "rs_Status ev = PAYMENT_RESULT_STATUS_SUCCESS") auto
next
  case False
  then have "snd (PaymentResultConsumer_handleMessage env m db) = db"
    by (auto simp: PaymentResultConsumer_handleMessage_def split: option.splits)
  then show ?thesis ..
qed

lemma publish_rows_orders:
  "orders (snd (publish_rows env rs db)) = orders db"
  by (induction rs arbitrary: db)
     (auto simp: MarkOutboxAttemptFailed_def MarkOutboxSent_def split: option.splits prod.splits)

lemma publishOnce_orders:
  "orders (snd (publishOnce env batch db)) = orders db"
proof -
  have "orders (snd (publishOnce_tx env batch db)) = orders db"
    by (auto simp: publishOnce_tx_def LockUnsentOutbox_def publish_rows_orders)
  then show ?thesis
    by (auto simp: publishOnce_def WithTx_def split: prod.splits sum.splits)
qed

lemma CreateOrder_emit_orders:
  "orders (snd (CreateOrder_emit env req row db)) = orders db"
  by (auto simp: CreateOrder_emit_def o_InsertOutbox_def split: option.splits)

lemma CreateOrder_orders:
  "orders (snd (Handlers_CreateOrder env req db)) = orders db \<or>
   (\<exists>row. orders (snd (Handlers_CreateOrder env req db)) = orders db @ [row])"
proof -
  have "orders (snd (CreateOrder_tx env req db)) = orders db \<or>
        (\<exists>row. orders (snd (CreateOrder_tx env req db)) = orders db @ [row])"
    by (auto simp: CreateOrder_tx_def q_CreateOrder_def CreateOrderIdempotent_def GetOrderByIdempotency_def
          CreateOrder_emit_orders Let_def split: option.splits)
  then show ?thesis
    by (auto simp: Handlers_CreateOrder_def WithTx_def split: prod.splits sum.splits)
qed

lemma orders_step_status:
  assumes "status_of db oid = Some s"
  shows "status_of (orders_step x db) oid = Some s \<or>
         (s = ''NEW'' \<and> (status_of (orders_step x db) oid = Some ''FINISHED'' \<or>
                          status_of (orders_step x db) oid = Some ''CANCELLED''))"
proof (cases x)
  case (Op_CreateOrder env req)
  from assms obtain r where r: "find (\<lambda>r. or_order_id r = oid) (orders db) = Some r" "or_status r = s"
    by (auto simp: status_of_def)
  from CreateOrder_orders[of env req db] r have "status_of (snd (Handlers_CreateOrder env req db)) oid = Some s"
    by (auto simp: status_of_def find_append_Some)
  with Op_CreateOrder show ?thesis by simp
next
  case (Op_PaymentResult env m)
  from PaymentResult_handle_any[of env m db]
  consider "snd (PaymentResultConsumer_handleMessage env m db) = db"
    | orderID msgID ns where "ns = ''FINISHED'' \<or> ns = ''CANCELLED''"
        "snd (PaymentResultConsumer_handleMessage env m db) =
           snd (UpdateOrderStatusIfNew no_faults orderID ns (db\<lparr>o_inbox := insert msgID (o_inbox db)\<rparr>))"
    by blast
  then have "status_of (snd (PaymentResultConsumer_handleMessage env m db)) oid = Some s \<or>
         (s = ''NEW'' \<and> (status_of (snd (PaymentResultConsumer_handleMessage env m db)) oid = Some ''FINISHED'' \<or>
                          status_of (snd (PaymentResultConsumer_handleMessage env m db)) oid = Some ''CANCELLED''))"
  proof cases
    case 1
    with assms show ?thesis by simp
  next
    case 2
    have "status_of (snd (PaymentResultConsumer_handleMessage env m db)) oid =
            (if oid = orderID \<and> s = ''NEW'' then Some ns else Some s)"
      unfolding 2(2) status_of_update using assms by (simp add: no_faults_def)
    with 2(1) show ?thesis by (auto split: if_splits)
  qed
  with Op_PaymentResult show ?thesis by simp
next
  case (Op_publishOnce env batch)
  with assms publishOnce_orders[of env batch db] show ?thesis
    by (simp add: status_of_def)
qed

lemma orders_run_append:
  "orders_run (xs @ ys) db = orders_run ys (orders_run xs db)"
  by (induction xs arbitrary: db) auto

lemma orders_run_status:
  assumes "status_of db oid = Some s"
  shows "status_of (orders_run xs db) oid = Some s \<or>
         (s = ''NEW'' \<and> (status_of (orders_run xs db) oid = Some ''FINISHED'' \<or>
                          status_of (orders_run xs db) oid = Some ''CANCELLED''))"
  using assms
proof (induction xs arbitrary: db s)
  case Nil
  then show ?case by simp
next
  case (Cons x xs)
  from orders_step_status[OF Cons.prems, of x]
  consider "status_of (orders_step x db) oid = Some s"
    | "s = ''NEW''" "status_of (orders_step x db) oid = Some ''FINISHED''"
    | "s = ''NEW''" "status_of (orders_step x db) oid = Some ''CANCELLED''"
    by blast
  then show ?case
  proof cases
    case 1
    from Cons.IH[OF 1] show ?thesis by simp
  next
    case 2
    from Cons.IH[OF 2(2)] 2(1) show ?thesis by auto
  next
    case 3
    from Cons.IH[OF 3(2)] 3(1) show ?thesis by auto
  qed
qed

text \<open>
  C3. A delivered \<open>PaymentResult\<close> whose inbox row is new sets the status \<open>FINISHED\<close> for
  \<open>SUCCESS\<close> and \<open>CANCELLED\<close> for any other status, and only on the order's row whose
  status is \<open>NEW\<close>. Along every sequence of operations on the orders database (deliveries,
  order creations, publisher passes, with any failing statements) a status other than \<open>NEW\<close>
  never changes, a \<open>NEW\<close> order can only become \<open>FINISHED\<close> or \<open>CANCELLED\<close>, and once the
  status of an order has changed it does not change again.
\<close>

theorem order_status_machine:
  assumes "oe_Unmarshal env (Value m) = Some ev"
    and "oe_uuid_Parse env (rs_EventId ev) = Some msgID"
    and "oe_uuid_Parse env (rs_OrderId ev) = Some orderID"
    and "msgID \<notin> o_inbox db" and "oe_faults env = no_faults"
    and "status_of db oid = Some s"
  shows "orders (snd (PaymentResultConsumer_handleMessage env m db)) =
           map (\<lambda>r. if or_order_id r = orderID \<and> or_status r = ''NEW''
                     then r\<lparr>or_status := (if rs_Status ev = PAYMENT_RESULT_STATUS_SUCCESS
                                           then ''FINISHED'' else ''CANCELLED'')\<rparr>
                     else r) (orders db) \<and>
         (s \<noteq> ''NEW'' \<longrightarrow> status_of (orders_run xs db) oid = Some s) \<and>
         (s = ''NEW'' \<longrightarrow> status_of (orders_run xs db) oid \<in> {Some ''NEW'', Some ''FINISHED'', Some ''CANCELLED''}) \<and>
         (status_of (orders_run xs db) oid \<noteq> Some s \<longrightarrow>
            status_of (orders_run (xs @ ys) db) oid = status_of (orders_run xs db) oid)"
proof -
  have a: "orders (snd (PaymentResultConsumer_handleMessage env m db)) =
           map (\<lambda>r. if or_order_id r = orderID \<and> or_status r = ''NEW''
                     then r\<lparr>or_status := (if rs_Status ev = PAYMENT_RESULT_STATUS_SUCCESS
                                           then ''FINISHED'' else ''CANCELLED'')\<rparr>
                     else r) (orders db)"
    using assms(1-5) by (simp add: o_consumer_defs)
  note run = orders_run_status[OF assms(6), of xs]
  have b: "s \<noteq> ''NEW'' \<longrightarrow> status_of (orders_run xs db) oid = Some s"
    using run by blast
  have c: "s = ''NEW'' \<longrightarrow> status_of (orders_run xs db) oid \<in> {Some ''NEW'', Some ''FINISHED'', Some ''CANCELLED''}"
    using run by blast
  have d: "status_of (orders_run (xs @ ys) db) oid = status_of (orders_run xs db) oid"
    if ne: "status_of (orders_run xs db) oid \<noteq> Some s"
  proof -
    from run ne obtain t where t: "status_of (orders_run xs db) oid = Some t" "t \<noteq> ''NEW''"
      by auto
    from orders_run_status[OF t(1), of ys] t(2) show ?thesis
      by (simp add: orders_run_append t(1))
  qed
  from a b c d show ?thesis by blast
qed

theorem order_status_machine_witness:
  "status_of ex_orders_db 2 = Some ''NEW'' \<and>
   orders (snd (PaymentResultConsumer_handleMessage ex_o_env ex_o_msg ex_orders_db))
     = [ex_order\<lparr>or_status := ''FINISHED''\<rparr>] \<and>
   status_of (orders_run [Op_PaymentResult ex_o_env ex_o_msg] ex_orders_db) 2 = Some ''FINISHED'' \<and>
   status_of (orders_run ([Op_PaymentResult ex_o_env ex_o_msg] @ [Op_PaymentResult ex_o_env ex_o_msg2]) ex_orders_db) 2
     = Some ''FINISHED'' \<and>
   status_of (ex_orders_db\<lparr>orders := [ex_order\<lparr>or_status := ''FINISHED''\<rparr>], o_inbox := {3}\<rparr>) 2 = Some ''FINISHED'' \<and>
   status_of (orders_run [Op_PaymentResult ex_o_env ex_o_msg2]
                (ex_orders_db\<lparr>orders := [ex_order\<lparr>or_status := ''FINISHED''\<rparr>], o_inbox := {3}\<rparr>)) 2
     = Some ''FINISHED''"
proof -
  let ?fin = "ex_orders_db\<lparr>orders := [ex_order\<lparr>or_status := ''FINISHED''\<rparr>], o_inbox := {3}\<rparr>"
  have h1: "oe_Unmarshal ex_o_env (Value ex_o_msg) = Some ex_res_ev" by (simp add: ex_o_defs)
  have h2: "oe_uuid_Parse ex_o_env (rs_EventId ex_res_ev) = Some 3" by (simp add: ex_o_defs)
  have h3: "oe_uuid_Parse ex_o_env (rs_OrderId ex_res_ev) = Some 2" by (simp add: ex_o_defs)
  have h4: "3 \<notin> o_inbox ex_orders_db" by (simp add: ex_o_defs)
  have h5: "oe_faults ex_o_env = no_faults" by (simp add: ex_o_defs)
  have h6: "status_of ex_orders_db 2 = Some ''NEW''" by (simp add: ex_o_defs status_of_def)
  have g1: "oe_Unmarshal ex_o_env (Value ex_o_msg2) = Some ex_res_ev2" by (simp add: ex_o_defs)
  have g2: "oe_uuid_Parse ex_o_env (rs_EventId ex_res_ev2) = Some 4" by (simp add: ex_o_defs)
  have g3: "oe_uuid_Parse ex_o_env (rs_OrderId ex_res_ev2) = Some 2" by (simp add: ex_o_defs)
  have g4: "4 \<notin> o_inbox ?fin" by simp
  have g6: "status_of ?fin 2 = Some ''FINISHED''" by (simp add: ex_o_defs status_of_def)
  note new = order_status_machine [OF h1 h2 h3 h4 h5 h6,
      of "[Op_PaymentResult ex_o_env ex_o_msg]" "[Op_PaymentResult ex_o_env ex_o_msg2]"]
  note fin = order_status_machine [OF g1 g2 g3 g4 h5 g6, of "[Op_PaymentResult ex_o_env ex_o_msg2]" "[]"]
  have a: "orders (snd (PaymentResultConsumer_handleMessage ex_o_env ex_o_msg ex_orders_db))
             = [ex_order\<lparr>or_status := ''FINISHED''\<rparr>]"
    using new by (simp add: ex_o_defs)
  have b: "status_of (orders_run [Op_PaymentResult ex_o_env ex_o_msg] ex_orders_db) 2 = Some ''FINISHED''"
    by (simp add: ex_o_handle) (simp add: status_of_def ex_o_defs)
  have c: "status_of (orders_run ([Op_PaymentResult ex_o_env ex_o_msg] @ [Op_PaymentResult ex_o_env ex_o_msg2]) ex_orders_db) 2
             = Some ''FINISHED''"
    using new b by simp
  have d: "status_of (orders_run [Op_PaymentResult ex_o_env ex_o_msg2] ?fin) 2 = Some ''FINISHED''"
    using fin by simp
  from a b c d h6 g6 show ?thesis by simp
qed

subsection \<open>Balances never go negative\<close>

lemmas topup_defs = Handlers_TopUp_def TopUp_tx_def InsertTopupIdempotency_def
  GetTopupIdempotency_def q_TopUp_def DeleteTopupIdempotency_def SetTopupIdempotencyBalance_def
  to_status_def

lemma TopUp_tx_accounts:
  "TopUp_tx flt u k a db = (Inr x, db2) \<Longrightarrow>
     accounts db2 = accounts db \<or>
     (\<exists>b. accounts db u = Some b \<and> accounts db2 = (accounts db)(u \<mapsto> b + a))"
  by (auto simp: TopUp_tx_def InsertTopupIdempotency_def GetTopupIdempotency_def q_TopUp_def
        SetTopupIdempotencyBalance_def Let_def
      split: if_splits option.splits)

lemma Handlers_TopUp_accounts:
  "accounts (snd (Handlers_TopUp flt req db)) = accounts db \<or>
   (\<exists>b. 0 < tu_Amount req \<and> accounts db (tu_UserId req) = Some b \<and>
        accounts (snd (Handlers_TopUp flt req db)) = (accounts db)(tu_UserId req \<mapsto> b + tu_Amount req))"
proof (cases "tu_UserId req = '''' \<or> tu_Amount req \<le> 0")
  case True
  then show ?thesis by (auto simp: Handlers_TopUp_def)
next
  case valid: False
  show ?thesis
  proof (cases "tu_IdempotencyKey req = ''''")
    case True
    with valid show ?thesis
      by (auto simp: Handlers_TopUp_def q_TopUp_def split: option.splits)
  next
    case False
    obtain x db2 where tx: "TopUp_tx flt (tu_UserId req) (tu_IdempotencyKey req) (tu_Amount req) db = (x, db2)"
      by (cases "TopUp_tx flt (tu_UserId req) (tu_IdempotencyKey req) (tu_Amount req) db")
    show ?thesis
    proof (cases x)
      case (Inl e)
      with tx valid False show ?thesis by (simp add: Handlers_TopUp_def WithTx_def)
    next
      case (Inr y)
      with tx TopUp_tx_accounts[of flt "tu_UserId req" "tu_IdempotencyKey req" "tu_Amount req" db y db2]
        valid False
      show ?thesis by (auto simp: Handlers_TopUp_def WithTx_def split: prod.splits)
    qed
  qed
qed

lemma Handlers_CreateAccount_accounts:
  "accounts (snd (Handlers_CreateAccount flt req db)) = accounts db \<or>
   accounts (snd (Handlers_CreateAccount flt req db)) = (accounts db)(ca_UserId req \<mapsto> 0)"
  by (auto simp: Handlers_CreateAccount_def q_CreateAccount_def q_CreateAccountIdempotent_def
      split: option.splits)

lemma PaymentRequested_tx_accounts:
  "PaymentRequested_tx env topic ev msgID orderID db = (x, db2) \<Longrightarrow>
     accounts db2 = accounts db \<or>
     (\<exists>b. accounts db (rq_UserId ev) = Some b \<and> rq_Amount ev \<le> b \<and>
          accounts db2 = (accounts db)(rq_UserId ev \<mapsto> b - rq_Amount ev))"
  by (auto simp: PaymentRequested_tx_def p_InsertInboxCheck_def TryDeductOnce_def AccountExists_def
        p_InsertOutbox_def
      split: if_splits option.splits)

lemma PaymentRequested_handle_accounts:
  "accounts (snd (PaymentRequestedConsumer_handleMessage env topic m db)) = accounts db \<or>
   (\<exists>u a b. 0 < a \<and> accounts db u = Some b \<and> a \<le> b \<and>
        accounts (snd (PaymentRequestedConsumer_handleMessage env topic m db)) = (accounts db)(u \<mapsto> b - a))"
proof (cases "\<exists>ev msgID orderID. pe_Unmarshal env (Value m) = Some ev \<and>
                pe_uuid_Parse env (rq_EventId ev) = Some msgID \<and>
                pe_uuid_Parse env (rq_OrderId ev) = Some orderID \<and>
                rq_UserId ev \<noteq> '''' \<and> 0 < rq_Amount ev")
  case True
  then obtain ev msgID orderID where h: "pe_Unmarshal env (Value m) = Some ev"
      "pe_uuid_Parse env (rq_EventId ev) = Some msgID" "pe_uuid_Parse env (rq_OrderId ev) = Some orderID"
      "rq_UserId ev \<noteq> ''''" "0 < rq_Amount ev"
    by blast
  obtain x db2 where tx: "PaymentRequested_tx env topic ev msgID orderID db = (x, db2)"
    by (cases "PaymentRequested_tx env topic ev msgID orderID db")
  from PaymentRequested_tx_accounts[OF tx] h tx show ?thesis
    by (cases x) (auto simp: PaymentRequestedConsumer_handleMessage_def WithTx_def)
next
  case False
  then have "snd (PaymentRequestedConsumer_handleMessage env topic m db) = db"
    by (auto simp: PaymentRequestedConsumer_handleMessage_def split: option.splits)
  then show ?thesis by simp
qed

lemma payments_step_nonneg:
  assumes "balances_nonneg db"
  shows "balances_nonneg (payments_step x db)"
proof (cases x)
  case (Op_CreateAccount flt req)
  with assms Handlers_CreateAccount_accounts[of flt req db] show ?thesis
    by (auto simp: balances_nonneg_def split: if_splits)
next
  case (Op_TopUp flt req)
  with assms Handlers_TopUp_accounts[of flt req db] show ?thesis
    by (fastforce simp: balances_nonneg_def split: if_splits)
next
  case (Op_PaymentRequested env topic m)
  with assms PaymentRequested_handle_accounts[of env topic m db] show ?thesis
    by (fastforce simp: balances_nonneg_def split: if_splits)
qed

lemma payments_run_nonneg:
  "balances_nonneg db \<Longrightarrow> balances_nonneg (payments_run xs db)"
  by (induction xs arbitrary: db) (auto simp: payments_step_nonneg)

text \<open>
  C4. Every balance is at least 0 after every sequence of account creations, top-ups and
  deliveries of \<open>PaymentRequested\<close>, whatever statements fail, from the empty database and
  from any database whose balances are at least 0. A top-up changes the accounts only by
  adding its positive amount to the user's balance; a delivery changes them only by
  subtracting a positive amount that the balance covers.
\<close>

theorem balance_never_negative:
  "balances_nonneg (payments_run xs empty_payments_db) \<and>
   (balances_nonneg db \<longrightarrow> balances_nonneg (payments_run xs db)) \<and>
   (accounts (snd (Handlers_TopUp flt req db)) = accounts db \<or>
    (\<exists>b. 0 < tu_Amount req \<and> accounts db (tu_UserId req) = Some b \<and>
         accounts (snd (Handlers_TopUp flt req db)) = (accounts db)(tu_UserId req \<mapsto> b + tu_Amount req))) \<and>
   (accounts (snd (PaymentRequestedConsumer_handleMessage env topic m db)) = accounts db \<or>
    (\<exists>u a b. 0 < a \<and> accounts db u = Some b \<and> a \<le> b \<and>
         accounts (snd (PaymentRequestedConsumer_handleMessage env topic m db)) = (accounts db)(u \<mapsto> b - a)))"
proof -
  have "balances_nonneg empty_payments_db"
    by (simp add: balances_nonneg_def empty_payments_db_def)
  then have "balances_nonneg (payments_run xs empty_payments_db)"
    by (rule payments_run_nonneg)
  with payments_run_nonneg[of db xs] Handlers_TopUp_accounts[of flt req db]
    PaymentRequested_handle_accounts[of env topic m db]
  show ?thesis by blast
qed

lemma ex_payments_run:
  "payments_run ex_payments_ops empty_payments_db =
     \<lparr>accounts = [''u1'' \<mapsto> 700],
      payment_operations = [2 \<mapsto> \<lparr>po_user_id = ''u1'', po_amount = 300, po_created_at = 7\<rparr>],
      topup_idempotency = [(''u1'', ''k2'') \<mapsto> \<lparr>ti_amount = 1000, ti_balance_after = 1000\<rparr>],
      p_inbox = [1 \<mapsto> 2],
      p_outbox = [new_outbox_row 1 7 ''payments.payment_result.v1'' ''o1'' ''o1+''],
      p_outbox_seq = 1\<rparr>"
  by (simp add: ex_payments_ops_def ex_p_defs p_consumer_defs topup_defs Handlers_CreateAccount_def
        q_CreateAccountIdempotent_def MaxInt64_def)

theorem balance_never_negative_witness:
  "balances_nonneg (payments_run ex_payments_ops empty_payments_db) \<and>
   accounts (payments_run ex_payments_ops empty_payments_db) ''u1'' = Some 700 \<and>
   balances_nonneg ex_payments_db \<and>
   balances_nonneg (payments_run ex_payments_ops ex_payments_db)"
proof -
  have "balances_nonneg ex_payments_db"
    by (simp add: balances_nonneg_def ex_p_defs)
  with balance_never_negative [of ex_payments_ops ex_payments_db no_faults
      "\<lparr>tu_UserId = ''u1'', tu_Amount = 1000, tu_IdempotencyKey = ''k2''\<rparr>"
      ex_p_env "''payments.payment_result.v1''" ex_msg]
  show ?thesis by (simp add: ex_payments_run)
qed

subsection \<open>Top-up with an idempotency key\<close>

lemma TopUp_replay:
  assumes "tu_UserId req \<noteq> ''''" "0 < tu_Amount req" "tu_IdempotencyKey req \<noteq> ''''"
    and "topup_idempotency db (tu_UserId req, tu_IdempotencyKey req) = Some row"
    and "ti_amount row = tu_Amount req"
  shows "Handlers_TopUp no_faults req db =
           (Inr \<lparr>ac_UserId = tu_UserId req, ac_Balance = ti_balance_after row\<rparr>, db)"
  using assms by (simp add: topup_defs WithTx_def no_faults_def)

lemma TopUp_first:
  assumes "tu_UserId req \<noteq> ''''" "0 < tu_Amount req" "tu_IdempotencyKey req \<noteq> ''''"
    and "topup_idempotency db (tu_UserId req, tu_IdempotencyKey req) = None"
    and "accounts db (tu_UserId req) = Some b"
    and "b + tu_Amount req \<le> MaxInt64"
  shows "Handlers_TopUp no_faults req db =
           (Inr \<lparr>ac_UserId = tu_UserId req, ac_Balance = b + tu_Amount req\<rparr>,
            db\<lparr>accounts := (accounts db)(tu_UserId req \<mapsto> b + tu_Amount req),
               topup_idempotency := (topup_idempotency db)((tu_UserId req, tu_IdempotencyKey req) \<mapsto>
                 \<lparr>ti_amount = tu_Amount req, ti_balance_after = b + tu_Amount req\<rparr>)\<rparr>)"
  using assms by (simp add: topup_defs WithTx_def no_faults_def)

lemma TopUp_no_account:
  assumes "tu_UserId req \<noteq> ''''" "0 < tu_Amount req" "tu_IdempotencyKey req \<noteq> ''''"
    and "topup_idempotency db (tu_UserId req, tu_IdempotencyKey req) = None"
    and "accounts db (tu_UserId req) = None"
  shows "Handlers_TopUp no_faults req db = (Inl (StatusErr NotFound ''account not found''), db)"
    and "TopUp_tx no_faults (tu_UserId req) (tu_IdempotencyKey req) (tu_Amount req) db =
           (Inl (StatusErr NotFound ''account not found''), db)"
  using assms by (simp_all add: topup_defs WithTx_def no_faults_def fun_upd_idem)

text \<open>
  C5. A top-up with a key, a user and a positive amount, when no statement fails. The
  first statement inserts the idempotency row with \<open>balance_after = 0\<close>, or reports 0 when
  the key is recorded. For a recorded key with the same amount the handler returns the
  recorded \<open>balance_after\<close> and changes nothing; with another amount it fails with
  \<open>FailedPrecondition\<close> and changes nothing. For a new key and an existing account
  (the sum within the 64-bit column) the amount is added to the balance and written to
  the row as \<open>balance_after\<close>. For a new key and no account the handler fails with
  \<open>NotFound\<close>, the function run in the transaction ends with the row deleted, the database
  is as before, and the same request succeeds once the account has been created.
\<close>

theorem keyed_topup:
  assumes "tu_UserId req \<noteq> ''''" and "0 < tu_Amount req" and "tu_IdempotencyKey req \<noteq> ''''"
    and "u = tu_UserId req" and "k = tu_IdempotencyKey req" and "a = tu_Amount req"
  shows "(topup_idempotency db (u, k) = None \<longrightarrow>
            InsertTopupIdempotency no_faults u k a db =
              (Inr 1, db\<lparr>topup_idempotency := (topup_idempotency db)((u, k) \<mapsto>
                            \<lparr>ti_amount = a, ti_balance_after = 0\<rparr>)\<rparr>)) \<and>
         (topup_idempotency db (u, k) \<noteq> None \<longrightarrow>
            InsertTopupIdempotency no_faults u k a db = (Inr 0, db)) \<and>
         (topup_idempotency db (u, k) = Some row \<and> ti_amount row = a \<longrightarrow>
            Handlers_TopUp no_faults req db =
              (Inr \<lparr>ac_UserId = u, ac_Balance = ti_balance_after row\<rparr>, db)) \<and>
         (topup_idempotency db (u, k) = Some row \<and> ti_amount row \<noteq> a \<longrightarrow>
            Handlers_TopUp no_faults req db =
              (Inl (StatusErr FailedPrecondition ''idempotency key reuse with different parameters''), db)) \<and>
         (topup_idempotency db (u, k) = None \<and> accounts db u = Some b \<and> b + a \<le> MaxInt64 \<longrightarrow>
            Handlers_TopUp no_faults req db =
              (Inr \<lparr>ac_UserId = u, ac_Balance = b + a\<rparr>,
               db\<lparr>accounts := (accounts db)(u \<mapsto> b + a),
                  topup_idempotency := (topup_idempotency db)((u, k) \<mapsto>
                    \<lparr>ti_amount = a, ti_balance_after = b + a\<rparr>)\<rparr>)) \<and>
         (topup_idempotency db (u, k) = None \<and> accounts db u = None \<longrightarrow>
            Handlers_TopUp no_faults req db = (Inl (StatusErr NotFound ''account not found''), db) \<and>
            topup_idempotency (snd (TopUp_tx no_faults u k a db)) (u, k) = None \<and>
            (a \<le> MaxInt64 \<longrightarrow>
               fst (Handlers_TopUp no_faults req
                      (snd (Handlers_CreateAccount no_faults \<lparr>ca_UserId = u, ca_IdempotencyKey = k'\<rparr>
                              (snd (Handlers_TopUp no_faults req db)))))
                 = Inr \<lparr>ac_UserId = u, ac_Balance = a\<rparr>))"
proof -
  note v = assms(1-3)
  have i1: "topup_idempotency db (u, k) = None \<longrightarrow>
            InsertTopupIdempotency no_faults u k a db =
              (Inr 1, db\<lparr>topup_idempotency := (topup_idempotency db)((u, k) \<mapsto>
                            \<lparr>ti_amount = a, ti_balance_after = 0\<rparr>)\<rparr>)"
    by (simp add: InsertTopupIdempotency_def no_faults_def)
  have i2: "topup_idempotency db (u, k) \<noteq> None \<longrightarrow>
            InsertTopupIdempotency no_faults u k a db = (Inr 0, db)"
    by (auto simp: InsertTopupIdempotency_def no_faults_def)
  have r: "topup_idempotency db (u, k) = Some row \<and> ti_amount row = a \<longrightarrow>
            Handlers_TopUp no_faults req db =
              (Inr \<lparr>ac_UserId = u, ac_Balance = ti_balance_after row\<rparr>, db)"
    using TopUp_replay[OF v, of db row] assms(4-6) by simp
  have mm: "topup_idempotency db (u, k) = Some row \<and> ti_amount row \<noteq> a \<longrightarrow>
            Handlers_TopUp no_faults req db =
              (Inl (StatusErr FailedPrecondition ''idempotency key reuse with different parameters''), db)"
    using v assms(4-6) by (simp add: topup_defs WithTx_def no_faults_def)
  have f: "topup_idempotency db (u, k) = None \<and> accounts db u = Some b \<and> b + a \<le> MaxInt64 \<longrightarrow>
            Handlers_TopUp no_faults req db =
              (Inr \<lparr>ac_UserId = u, ac_Balance = b + a\<rparr>,
               db\<lparr>accounts := (accounts db)(u \<mapsto> b + a),
                  topup_idempotency := (topup_idempotency db)((u, k) \<mapsto>
                    \<lparr>ti_amount = a, ti_balance_after = b + a\<rparr>)\<rparr>)"
    using TopUp_first[OF v, of db b] assms(4-6) by simp
  have n: "Handlers_TopUp no_faults req db = (Inl (StatusErr NotFound ''account not found''), db) \<and>
            topup_idempotency (snd (TopUp_tx no_faults u k a db)) (u, k) = None \<and>
            (a \<le> MaxInt64 \<longrightarrow>
               fst (Handlers_TopUp no_faults req
                      (snd (Handlers_CreateAccount no_faults \<lparr>ca_UserId = u, ca_IdempotencyKey = k'\<rparr>
                              (snd (Handlers_TopUp no_faults req db)))))
                 = Inr \<lparr>ac_UserId = u, ac_Balance = a\<rparr>)"
    if h: "topup_idempotency db (u, k) = None" "accounts db u = None"
  proof -
    from h assms(4-6) have h': "topup_idempotency db (tu_UserId req, tu_IdempotencyKey req) = None"
      "accounts db (tu_UserId req) = None" by simp_all
    note na = TopUp_no_account[OF v h']
    let ?db1 = "snd (Handlers_CreateAccount no_faults \<lparr>ca_UserId = u, ca_IdempotencyKey = k'\<rparr> db)"
    have ca: "accounts ?db1 (tu_UserId req) = Some 0"
         "topup_idempotency ?db1 (tu_UserId req, tu_IdempotencyKey req) = None"
      using h assms(1,4-6)
      by (auto simp: Handlers_CreateAccount_def q_CreateAccount_def q_CreateAccountIdempotent_def no_faults_def)
    have "a \<le> MaxInt64 \<Longrightarrow> fst (Handlers_TopUp no_faults req ?db1) = Inr \<lparr>ac_UserId = u, ac_Balance = a\<rparr>"
      using TopUp_first[OF v ca(2) ca(1)] assms(4-6) by simp
    with na h assms(4-6) show ?thesis by simp
  qed
  from n have n': "topup_idempotency db (u, k) = None \<and> accounts db u = None \<longrightarrow>
            Handlers_TopUp no_faults req db = (Inl (StatusErr NotFound ''account not found''), db) \<and>
            topup_idempotency (snd (TopUp_tx no_faults u k a db)) (u, k) = None \<and>
            (a \<le> MaxInt64 \<longrightarrow>
               fst (Handlers_TopUp no_faults req
                      (snd (Handlers_CreateAccount no_faults \<lparr>ca_UserId = u, ca_IdempotencyKey = k'\<rparr>
                              (snd (Handlers_TopUp no_faults req db)))))
                 = Inr \<lparr>ac_UserId = u, ac_Balance = a\<rparr>)"
    by blast
  show ?thesis
    by (intro conjI) (rule i1, rule i2, rule r, rule mm, rule f, rule n')
qed

theorem keyed_topup_witness:
  "InsertTopupIdempotency no_faults ''u1'' ''k6'' 50 ex_payments_db =
     (Inr 1, ex_payments_db\<lparr>topup_idempotency := [(''u1'', ''k6'') \<mapsto> \<lparr>ti_amount = 50, ti_balance_after = 0\<rparr>]\<rparr>) \<and>
   Handlers_TopUp no_faults ex_topup ex_payments_db =
     (Inr \<lparr>ac_UserId = ''u1'', ac_Balance = 1050\<rparr>, ex_topup_db) \<and>
   InsertTopupIdempotency no_faults ''u1'' ''k6'' 50 ex_topup_db = (Inr 0, ex_topup_db) \<and>
   Handlers_TopUp no_faults ex_topup ex_topup_db =
     (Inr \<lparr>ac_UserId = ''u1'', ac_Balance = 1050\<rparr>, ex_topup_db) \<and>
   Handlers_TopUp no_faults (ex_topup\<lparr>tu_Amount := 51\<rparr>) ex_topup_db =
     (Inl (StatusErr FailedPrecondition ''idempotency key reuse with different parameters''), ex_topup_db) \<and>
   Handlers_TopUp no_faults ex_topup empty_payments_db =
     (Inl (StatusErr NotFound ''account not found''), empty_payments_db) \<and>
   topup_idempotency (snd (TopUp_tx no_faults ''u1'' ''k6'' 50 empty_payments_db)) (''u1'', ''k6'') = None \<and>
   fst (Handlers_TopUp no_faults ex_topup
          (snd (Handlers_CreateAccount no_faults \<lparr>ca_UserId = ''u1'', ca_IdempotencyKey = ''k1''\<rparr>
                  (snd (Handlers_TopUp no_faults ex_topup empty_payments_db)))))
     = Inr \<lparr>ac_UserId = ''u1'', ac_Balance = 50\<rparr>"
proof -
  have v: "tu_UserId ex_topup \<noteq> ''''" "0 < tu_Amount ex_topup" "tu_IdempotencyKey ex_topup \<noteq> ''''"
    and e: "''u1'' = tu_UserId ex_topup" "''k6'' = tu_IdempotencyKey ex_topup" "50 = tu_Amount ex_topup"
    by (simp_all add: ex_topup_def)
  note first = keyed_topup [OF v e, of ex_payments_db _ 1000]
  note again = keyed_topup [OF v e, of ex_topup_db "\<lparr>ti_amount = 50, ti_balance_after = 1050\<rparr>"]
  note none = keyed_topup [OF v e, of empty_payments_db _ _ "''k1''"]
  have v': "tu_UserId (ex_topup\<lparr>tu_Amount := 51\<rparr>) \<noteq> ''''" "0 < tu_Amount (ex_topup\<lparr>tu_Amount := 51\<rparr>)"
      "tu_IdempotencyKey (ex_topup\<lparr>tu_Amount := 51\<rparr>) \<noteq> ''''"
    and e': "''u1'' = tu_UserId (ex_topup\<lparr>tu_Amount := 51\<rparr>)"
      "''k6'' = tu_IdempotencyKey (ex_topup\<lparr>tu_Amount := 51\<rparr>)" "51 = tu_Amount (ex_topup\<lparr>tu_Amount := 51\<rparr>)"
    by (simp_all add: ex_topup_def)
  note other = keyed_topup [OF v' e', of ex_topup_db "\<lparr>ti_amount = 50, ti_balance_after = 1050\<rparr>"]
  have a: "topup_idempotency ex_payments_db (''u1'', ''k6'') = None"
      "accounts ex_payments_db ''u1'' = Some 1000" "1000 + 50 \<le> MaxInt64"
    by (simp_all add: ex_p_defs MaxInt64_def)
  have b: "topup_idempotency ex_topup_db (''u1'', ''k6'') = Some \<lparr>ti_amount = 50, ti_balance_after = 1050\<rparr>"
    by (simp add: ex_topup_db_def)
  have c: "topup_idempotency empty_payments_db (''u1'', ''k6'') = None"
      "accounts empty_payments_db ''u1'' = None" "50 \<le> MaxInt64"
    by (simp_all add: empty_payments_db_def MaxInt64_def)
  have d: "ex_payments_db\<lparr>accounts := (accounts ex_payments_db)(''u1'' \<mapsto> 1000 + 50),
              topup_idempotency := (topup_idempotency ex_payments_db)((''u1'', ''k6'') \<mapsto>
                 \<lparr>ti_amount = 50, ti_balance_after = 1000 + 50\<rparr>)\<rparr> = ex_topup_db"
    by (simp add: ex_topup_db_def ex_p_defs)
  have d': "ex_payments_db\<lparr>topup_idempotency := (topup_idempotency ex_payments_db)((''u1'', ''k6'') \<mapsto>
                 \<lparr>ti_amount = 50, ti_balance_after = 0\<rparr>)\<rparr> =
            ex_payments_db\<lparr>topup_idempotency := [(''u1'', ''k6'') \<mapsto> \<lparr>ti_amount = 50, ti_balance_after = 0\<rparr>]\<rparr>"
    by (simp add: ex_p_defs)
  from first a d d' have 1: "InsertTopupIdempotency no_faults ''u1'' ''k6'' 50 ex_payments_db =
     (Inr 1, ex_payments_db\<lparr>topup_idempotency := [(''u1'', ''k6'') \<mapsto> \<lparr>ti_amount = 50, ti_balance_after = 0\<rparr>]\<rparr>)"
     "Handlers_TopUp no_faults ex_topup ex_payments_db =
     (Inr \<lparr>ac_UserId = ''u1'', ac_Balance = 1050\<rparr>, ex_topup_db)"
    by simp_all
  from again b have 2: "InsertTopupIdempotency no_faults ''u1'' ''k6'' 50 ex_topup_db = (Inr 0, ex_topup_db)"
     "Handlers_TopUp no_faults ex_topup ex_topup_db =
     (Inr \<lparr>ac_UserId = ''u1'', ac_Balance = 1050\<rparr>, ex_topup_db)"
    by simp_all
  from other b have mm: "Handlers_TopUp no_faults (ex_topup\<lparr>tu_Amount := 51\<rparr>) ex_topup_db =
     (Inl (StatusErr FailedPrecondition ''idempotency key reuse with different parameters''), ex_topup_db)"
    by simp
  from none c have 3: "Handlers_TopUp no_faults ex_topup empty_payments_db =
     (Inl (StatusErr NotFound ''account not found''), empty_payments_db)"
    "topup_idempotency (snd (TopUp_tx no_faults ''u1'' ''k6'' 50 empty_payments_db)) (''u1'', ''k6'') = None"
    "fst (Handlers_TopUp no_faults ex_topup
          (snd (Handlers_CreateAccount no_faults \<lparr>ca_UserId = ''u1'', ca_IdempotencyKey = ''k1''\<rparr>
                  (snd (Handlers_TopUp no_faults ex_topup empty_payments_db)))))
     = Inr \<lparr>ac_UserId = ''u1'', ac_Balance = 50\<rparr>"
    by blast+
  from 1 2 mm 3 show ?thesis by blast
qed

subsection \<open>Reuse of an idempotency key with other parameters\<close>

lemmas create_defs = Handlers_CreateOrder_def CreateOrder_tx_def CreateOrder_emit_def q_CreateOrder_def
  CreateOrderIdempotent_def GetOrderByIdempotency_def o_InsertOutbox_def order_of_row_def

lemma TopUp_mismatch:
  assumes "tu_IdempotencyKey req \<noteq> ''''"
    and "topup_idempotency db (tu_UserId req, tu_IdempotencyKey req) = Some row"
    and "ti_amount row \<noteq> tu_Amount req"
  shows "snd (Handlers_TopUp flt req db) = db"
    and "isl (fst (Handlers_TopUp flt req db))"
    and "tu_UserId req \<noteq> '''' \<Longrightarrow> 0 < tu_Amount req \<Longrightarrow> flt = no_faults \<Longrightarrow>
         fst (Handlers_TopUp flt req db) =
           Inl (StatusErr FailedPrecondition ''idempotency key reuse with different parameters'')"
  using assms by (auto simp: topup_defs WithTx_def no_faults_def)

lemma CreateOrder_mismatch:
  assumes "co_IdempotencyKey req \<noteq> ''''"
    and "find (has_idempotency (co_UserId req) (co_IdempotencyKey req)) (orders db) = Some row"
    and "or_amount row \<noteq> co_Amount req \<or> or_description row \<noteq> co_Description req"
  shows "snd (Handlers_CreateOrder env req db) = db"
    and "isl (fst (Handlers_CreateOrder env req db))"
    and "co_UserId req \<noteq> '''' \<Longrightarrow> 0 < co_Amount req \<Longrightarrow> co_Description req \<noteq> '''' \<Longrightarrow>
         oe_faults env = no_faults \<Longrightarrow>
         fst (Handlers_CreateOrder env req db) =
           Inl (StatusErr FailedPrecondition ''idempotency key reuse with different parameters'')"
  using assms
  by (auto simp: Handlers_CreateOrder_def CreateOrder_tx_def CreateOrderIdempotent_def
        GetOrderByIdempotency_def WithTx_def no_faults_def to_status_def)

text \<open>
  C8. A top-up whose key is recorded with another amount, and an order creation whose key
  is recorded with another amount or description, return an error and leave the database
  exactly as it was, whatever statements fail. For a request that passes validation, in a
  run where no statement fails, the error is \<open>FailedPrecondition\<close>.
\<close>

theorem key_reuse_rejected:
  assumes "tu_IdempotencyKey treq \<noteq> ''''"
    and "topup_idempotency pdb (tu_UserId treq, tu_IdempotencyKey treq) = Some row"
    and "ti_amount row \<noteq> tu_Amount treq"
    and "co_IdempotencyKey creq \<noteq> ''''"
    and "find (has_idempotency (co_UserId creq) (co_IdempotencyKey creq)) (orders odb) = Some orow"
    and "or_amount orow \<noteq> co_Amount creq \<or> or_description orow \<noteq> co_Description creq"
  shows "snd (Handlers_TopUp flt treq pdb) = pdb \<and>
         isl (fst (Handlers_TopUp flt treq pdb)) \<and>
         (tu_UserId treq \<noteq> '''' \<and> 0 < tu_Amount treq \<and> flt = no_faults \<longrightarrow>
            fst (Handlers_TopUp flt treq pdb) =
              Inl (StatusErr FailedPrecondition ''idempotency key reuse with different parameters'')) \<and>
         snd (Handlers_CreateOrder env creq odb) = odb \<and>
         isl (fst (Handlers_CreateOrder env creq odb)) \<and>
         (co_UserId creq \<noteq> '''' \<and> 0 < co_Amount creq \<and> co_Description creq \<noteq> '''' \<and>
          oe_faults env = no_faults \<longrightarrow>
            fst (Handlers_CreateOrder env creq odb) =
              Inl (StatusErr FailedPrecondition ''idempotency key reuse with different parameters''))"
  using TopUp_mismatch[OF assms(1-3), of flt] CreateOrder_mismatch[OF assms(4-6), of env]
  by blast

theorem key_reuse_rejected_witness:
  "Handlers_TopUp no_faults (ex_topup\<lparr>tu_Amount := 51\<rparr>) ex_topup_db =
     (Inl (StatusErr FailedPrecondition ''idempotency key reuse with different parameters''), ex_topup_db) \<and>
   Handlers_CreateOrder ex_o_env (ex_create\<lparr>co_Description := ''car''\<rparr>) ex_orders_db =
     (Inl (StatusErr FailedPrecondition ''idempotency key reuse with different parameters''), ex_orders_db)"
proof -
  let ?t = "ex_topup\<lparr>tu_Amount := 51\<rparr>"
  let ?c = "ex_create\<lparr>co_Description := ''car''\<rparr>"
  have h1: "tu_IdempotencyKey ?t \<noteq> ''''" by (simp add: ex_topup_def)
  have h2: "topup_idempotency ex_topup_db (tu_UserId ?t, tu_IdempotencyKey ?t) =
              Some \<lparr>ti_amount = 50, ti_balance_after = 1050\<rparr>"
    by (simp add: ex_topup_def ex_topup_db_def)
  have h3: "ti_amount \<lparr>ti_amount = 50, ti_balance_after = 1050\<rparr> \<noteq> tu_Amount ?t"
    by (simp add: ex_topup_def)
  have h4: "co_IdempotencyKey ?c \<noteq> ''''" by (simp add: ex_create_def)
  have h5: "find (has_idempotency (co_UserId ?c) (co_IdempotencyKey ?c)) (orders ex_orders_db) = Some ex_order"
    by (simp add: ex_create_def ex_o_defs has_idempotency_def)
  have h6: "or_amount ex_order \<noteq> co_Amount ?c \<or> or_description ex_order \<noteq> co_Description ?c"
    by (simp add: ex_create_def ex_o_defs)
  have v: "tu_UserId ?t \<noteq> ''''" "0 < tu_Amount ?t" "co_UserId ?c \<noteq> ''''" "0 < co_Amount ?c"
      "co_Description ?c \<noteq> ''''" "oe_faults ex_o_env = no_faults"
    by (simp_all add: ex_topup_def ex_create_def ex_o_defs)
  from key_reuse_rejected [OF h1 h2 h3 h4 h5 h6, of no_faults ex_o_env] v
  show ?thesis by (simp add: prod_eq_iff)
qed

subsection \<open>Poison messages\<close>

text \<open>
  C9 as stated fails for the orders consumer: a \<open>PaymentResult\<close> with an empty \<open>user_id\<close>
  and well-formed identifiers is processed; here it cancels the order.
\<close>

theorem poison_empty_user_counterexample:
  "oe_Unmarshal ex_o_env (Value ex_o_msg2) = Some ex_res_ev2 \<and>
   rs_UserId ex_res_ev2 = '''' \<and>
   status_of ex_orders_db 2 = Some ''NEW'' \<and>
   PaymentResultConsumer_handleMessage ex_o_env ex_o_msg2 ex_orders_db
     = (None, ex_orders_db\<lparr>orders := [ex_order\<lparr>or_status := ''CANCELLED''\<rparr>], o_inbox := {4}\<rparr>) \<and>
   status_of (snd (PaymentResultConsumer_handleMessage ex_o_env ex_o_msg2 ex_orders_db)) 2 = Some ''CANCELLED''"
  by (simp add: ex_o_defs o_consumer_defs status_of_def)

text \<open>
  C9, amended. A message that the payments consumer cannot decode, or whose \<open>event_id\<close>
  or \<open>order_id\<close> is not a UUID, or whose \<open>user_id\<close> is empty, or whose amount is not
  positive, and a message that the orders consumer cannot decode, or whose \<open>event_id\<close> or
  \<open>order_id\<close> is not a UUID, makes the handler return success with the database unchanged,
  whatever statements would fail.
\<close>

theorem poison_absorbed:
  "(PaymentRequested_poison penv pm \<longrightarrow>
      PaymentRequestedConsumer_handleMessage penv topic pm pdb = (None, pdb)) \<and>
   (PaymentResult_poison oenv om \<longrightarrow>
      PaymentResultConsumer_handleMessage oenv om odb = (None, odb))"
  by (auto simp: PaymentRequested_poison_def PaymentResult_poison_def
        PaymentRequestedConsumer_handleMessage_def PaymentResultConsumer_handleMessage_def
      split: option.splits)

theorem poison_absorbed_witness:
  "PaymentRequested_poison ex_p_env \<lparr>Key = ''o1'', Value = ''garbage''\<rparr> \<and>
   PaymentRequestedConsumer_handleMessage ex_p_env ''t'' \<lparr>Key = ''o1'', Value = ''garbage''\<rparr> ex_payments_db
     = (None, ex_payments_db) \<and>
   PaymentResult_poison (ex_o_env\<lparr>oe_uuid_Parse := (\<lambda>s. None)\<rparr>) ex_o_msg \<and>
   PaymentResultConsumer_handleMessage (ex_o_env\<lparr>oe_uuid_Parse := (\<lambda>s. None)\<rparr>) ex_o_msg ex_orders_db
     = (None, ex_orders_db)"
proof -
  have p: "PaymentRequested_poison ex_p_env \<lparr>Key = ''o1'', Value = ''garbage''\<rparr>"
    by (simp add: PaymentRequested_poison_def ex_p_defs)
  have o: "PaymentResult_poison (ex_o_env\<lparr>oe_uuid_Parse := (\<lambda>s. None)\<rparr>) ex_o_msg"
    by (simp add: PaymentResult_poison_def ex_o_defs)
  from poison_absorbed [of ex_p_env "\<lparr>Key = ''o1'', Value = ''garbage''\<rparr>" "''t''" ex_payments_db
      "ex_o_env\<lparr>oe_uuid_Parse := (\<lambda>s. None)\<rparr>" ex_o_msg ex_orders_db] p o
  show ?thesis by blast
qed

subsection \<open>The outbox publisher\<close>

lemma find_id_None:
  "i \<notin> ob_id ` set rs \<Longrightarrow> find (\<lambda>r. ob_id r = i) rs = None"
  by (auto simp: find_None_iff)

lemma publish_rows_no_faults:
  assumes "oe_faults env = no_faults" and "distinct (map ob_id rs)"
  shows "publish_rows env rs db =
           (Inr (), db\<lparr>o_outbox :=
              map (\<lambda>x. case find (\<lambda>r. ob_id r = ob_id x) rs of
                          None \<Rightarrow> x
                        | Some r \<Rightarrow>
                            (case oe_WriteMessages env (ob_id r) \<lparr>Key = ob_kafka_key r, Value = ob_payload r\<rparr> of
                               Some err \<Rightarrow> x\<lparr>ob_attempts := ob_attempts x + 1, ob_last_error := Some err\<rparr>
                             | None \<Rightarrow> x\<lparr>ob_sent_at := Some (oe_now env)\<rparr>))
                  (o_outbox db)\<rparr>)"
  using assms(2)
proof (induction rs arbitrary: db)
  case Nil
  then show ?case by simp
next
  case (Cons r rs)
  from Cons.prems have d: "distinct (map ob_id rs)" and n: "ob_id r \<notin> ob_id ` set rs"
    by simp_all
  note fn = find_id_None[OF n]
  show ?case
  proof (cases "oe_WriteMessages env (ob_id r) \<lparr>Key = ob_kafka_key r, Value = ob_payload r\<rparr>")
    case None
    then show ?thesis
      using assms(1) fn
      by (simp add: MarkOutboxSent_def no_faults_def Cons.IH[OF d] comp_def)
  next
    case (Some err)
    then show ?thesis
      using assms(1) fn
      by (simp add: MarkOutboxAttemptFailed_def no_faults_def Cons.IH[OF d] comp_def)
  qed
qed

lemma spec_batch_props:
  assumes "distinct (map ob_id (o_outbox db))"
  shows "distinct (map ob_id (spec_batch batch db))"
    and "set (spec_batch batch db) \<subseteq> set (o_outbox db)"
proof -
  let ?ys = "sort_key ob_id (filter (\<lambda>r. ob_sent_at r = None) (o_outbox db))"
  from assms have dx: "distinct (o_outbox db)" and inj: "inj_on ob_id (set (o_outbox db))"
    by (simp_all add: distinct_map)
  have sub: "set (take (nat (to_int32 batch)) ?ys) \<subseteq> set (o_outbox db)"
    using set_take_subset[of "nat (to_int32 batch)" ?ys] by auto
  then show "set (spec_batch batch db) \<subseteq> set (o_outbox db)"
    by (simp add: spec_batch_def)
  have "distinct (take (nat (to_int32 batch)) ?ys)"
    using dx by simp
  moreover have "inj_on ob_id (set (take (nat (to_int32 batch)) ?ys))"
    using inj sub by (rule inj_on_subset)
  ultimately show "distinct (map ob_id (spec_batch batch db))"
    by (simp add: spec_batch_def distinct_map)
qed

lemma find_in_batch:
  assumes "distinct (map ob_id xs)" and "set rs \<subseteq> set xs" and "x \<in> set xs"
  shows "find (\<lambda>r. ob_id r = ob_id x) rs = (if x \<in> set rs then Some x else None)"
proof -
  from assms(1) have inj: "inj_on ob_id (set xs)" by (simp add: distinct_map)
  show ?thesis
  proof (cases "find (\<lambda>r. ob_id r = ob_id x) rs")
    case None
    then have "x \<notin> set rs" by (auto simp: find_None_iff)
    with None show ?thesis by simp
  next
    case (Some r)
    then have "ob_id r = ob_id x" "r \<in> set rs"
      by (auto simp: find_Some_iff)
    with inj assms(2,3) have "r = x" by (auto dest: inj_onD)
    with Some \<open>r \<in> set rs\<close> show ?thesis by simp
  qed
qed

lemma list_all2_trans_same:
  assumes "\<And>x y z. R x y \<Longrightarrow> R y z \<Longrightarrow> R x z"
    and "list_all2 R xs ys" and "list_all2 R ys zs"
  shows "list_all2 R xs zs"
  using assms by (rule list_all2_trans)

lemma publish_rows_sent_only_after_publish:
  assumes "set rs \<subseteq> A"
  shows "list_all2 (\<lambda>x x'. ob_id x' = ob_id x \<and>
            (ob_sent_at x' = ob_sent_at x \<or>
             (\<exists>r\<in>A. ob_id r = ob_id x \<and>
                oe_WriteMessages env (ob_id r) \<lparr>Key = ob_kafka_key r, Value = ob_payload r\<rparr> = None)))
           (o_outbox db) (o_outbox (snd (publish_rows env rs db)))"
  using assms
proof (induction rs arbitrary: db)
  case Nil
  then show ?case by (simp add: list_all2_same)
next
  case (Cons r rs)
  let ?R = "\<lambda>x x'. ob_id x' = ob_id x \<and>
            (ob_sent_at x' = ob_sent_at x \<or>
             (\<exists>r\<in>A. ob_id r = ob_id x \<and>
                oe_WriteMessages env (ob_id r) \<lparr>Key = ob_kafka_key r, Value = ob_payload r\<rparr> = None))"
  have trans: "?R x y \<Longrightarrow> ?R y z \<Longrightarrow> ?R x z" for x y z :: outbox_row
    by auto
  from Cons.prems have rA: "r \<in> A" and sub: "set rs \<subseteq> A" by simp_all
  show ?case
  proof (cases "oe_WriteMessages env (ob_id r) \<lparr>Key = ob_kafka_key r, Value = ob_payload r\<rparr>")
    case (Some err)
    let ?db1 = "snd (MarkOutboxAttemptFailed (oe_faults env) (ob_id r) err db)"
    have 1: "list_all2 ?R (o_outbox db) (o_outbox ?db1)"
      by (auto simp: MarkOutboxAttemptFailed_def list_all2_map2 list_all2_same)
    have "list_all2 ?R (o_outbox db) (o_outbox (snd (publish_rows env rs ?db1)))"
      using trans 1 Cons.IH[OF sub, of ?db1] by (rule list_all2_trans_same)
    with Some show ?thesis by simp
  next
    case None
    obtain e db1 where m: "MarkOutboxSent (oe_faults env) (oe_now env) (ob_id r) db = (e, db1)"
      by (cases "MarkOutboxSent (oe_faults env) (oe_now env) (ob_id r) db")
    have 1: "list_all2 ?R (o_outbox db) (o_outbox db1)"
      using m None rA
      by (auto simp: MarkOutboxSent_def list_all2_map2 list_all2_same split: if_splits)
    show ?thesis
    proof (cases e)
      case None': None
      have "list_all2 ?R (o_outbox db) (o_outbox (snd (publish_rows env rs db1)))"
        using trans 1 Cons.IH[OF sub, of db1] by (rule list_all2_trans_same)
      with None m None' show ?thesis by simp
    next
      case (Some e')
      with 1 None m show ?thesis by simp
    qed
  qed
qed

lemma publishOnce_sent_only_after_publish:
  "list_all2 (\<lambda>x x'. ob_id x' = ob_id x \<and>
            (ob_sent_at x' = ob_sent_at x \<or>
             (\<exists>r\<in>set (o_outbox db). ob_id r = ob_id x \<and>
                oe_WriteMessages env (ob_id r) \<lparr>Key = ob_kafka_key r, Value = ob_payload r\<rparr> = None)))
           (o_outbox db) (o_outbox (snd (publishOnce env batch db)))"
proof -
  let ?R = "\<lambda>x x'. ob_id x' = ob_id x \<and>
            (ob_sent_at x' = ob_sent_at x \<or>
             (\<exists>r\<in>set (o_outbox db). ob_id r = ob_id x \<and>
                oe_WriteMessages env (ob_id r) \<lparr>Key = ob_kafka_key r, Value = ob_payload r\<rparr> = None))"
  have same: "list_all2 ?R (o_outbox db) (o_outbox db)"
    by (simp add: list_all2_same)
  have sub: "set (take n (sort_key ob_id (filter (\<lambda>r. ob_sent_at r = None) (o_outbox db)))) \<subseteq> set (o_outbox db)" for n
    using set_take_subset[of n "sort_key ob_id (filter (\<lambda>r. ob_sent_at r = None) (o_outbox db))"] by auto
  have tx: "list_all2 ?R (o_outbox db) (o_outbox (snd (publishOnce_tx env batch db)))"
    using same publish_rows_sent_only_after_publish[OF sub, where env = env and db = db]
    by (auto simp: publishOnce_tx_def LockUnsentOutbox_def)
  show ?thesis
    using same tx
    by (auto simp: publishOnce_def WithTx_def split: prod.splits sum.splits)
qed

lemma publishOnce_no_faults:
  assumes "oe_faults env = no_faults"
    and "distinct (map ob_id (o_outbox db))"
    and "0 \<le> to_int32 batch"
  shows "publishOnce env batch db =
           (None, db\<lparr>o_outbox := map (\<lambda>r. if r \<in> set (spec_batch batch db) then spec_publish_row env r else r)
                                    (o_outbox db)\<rparr>)"
proof -
  let ?rs = "spec_batch batch db"
  note bp = spec_batch_props[OF assms(2), of batch]
  have lock: "LockUnsentOutbox (oe_faults env) (to_int32 batch) db = (Inr ?rs, db)"
    using assms(1,3) by (simp add: LockUnsentOutbox_def spec_batch_def no_faults_def)
  have m: "map (\<lambda>x. case find (\<lambda>r. ob_id r = ob_id x) ?rs of
                          None \<Rightarrow> x
                        | Some r \<Rightarrow>
                            (case oe_WriteMessages env (ob_id r) \<lparr>Key = ob_kafka_key r, Value = ob_payload r\<rparr> of
                               Some err \<Rightarrow> x\<lparr>ob_attempts := ob_attempts x + 1, ob_last_error := Some err\<rparr>
                             | None \<Rightarrow> x\<lparr>ob_sent_at := Some (oe_now env)\<rparr>))
                  (o_outbox db) =
           map (\<lambda>r. if r \<in> set ?rs then spec_publish_row env r else r) (o_outbox db)"
    by (rule map_cong) (simp_all add: find_in_batch[OF assms(2) bp(2)] spec_publish_row_def)
  have tx: "publishOnce_tx env batch db =
              (Inr (), db\<lparr>o_outbox := map (\<lambda>r. if r \<in> set ?rs then spec_publish_row env r else r) (o_outbox db)\<rparr>)"
  proof (cases "?rs = []")
    case True
    then show ?thesis by (simp add: publishOnce_tx_def lock)
  next
    case False
    then show ?thesis
      by (simp add: publishOnce_tx_def lock publish_rows_no_faults[OF assms(1) bp(1)] m)
  qed
  show ?thesis
    using assms(1) by (simp add: publishOnce_def WithTx_def tx no_faults_def)
qed

text \<open>
  C10. One publisher pass, when no database statement fails and the \<open>id\<close>s of the outbox
  are distinct: the pass commits and returns success; every row of the locked batch whose
  publish failed has \<open>attempts\<close> incremented and \<open>last_error\<close> set and stays unsent, every
  row of the batch whose publish succeeded has \<open>sent_at\<close> set, whatever happened to the
  rows before it; all other rows, and the rest of the database, are as before. Whatever
  statements fail, the outbox after the pass has the same rows in the same order, and a
  row whose \<open>sent_at\<close> has changed is a row whose publish succeeded.
\<close>

theorem publisher_pass:
  "(oe_faults env = no_faults \<and> distinct (map ob_id (o_outbox db)) \<and> 0 \<le> to_int32 batch \<longrightarrow>
      publishOnce env batch db =
        (None, db\<lparr>o_outbox := map (\<lambda>r. if r \<in> set (spec_batch batch db) then spec_publish_row env r else r)
                                 (o_outbox db)\<rparr>)) \<and>
   list_all2 (\<lambda>x x'. ob_id x' = ob_id x \<and>
            (ob_sent_at x' = ob_sent_at x \<or>
             (\<exists>r\<in>set (o_outbox db). ob_id r = ob_id x \<and>
                oe_WriteMessages env (ob_id r) \<lparr>Key = ob_kafka_key r, Value = ob_payload r\<rparr> = None)))
           (o_outbox db) (o_outbox (snd (publishOnce env batch db)))"
  using publishOnce_no_faults[of env db batch] publishOnce_sent_only_after_publish[of db env batch]
  by blast

theorem publisher_pass_witness:
  "oe_faults ex_pub_env = no_faults \<and> distinct (map ob_id (o_outbox ex_outbox_db)) \<and> 0 \<le> to_int32 50 \<and>
   publishOnce ex_pub_env 50 ex_outbox_db =
     (None, ex_outbox_db\<lparr>o_outbox :=
        [(new_outbox_row 1 5 ''payments.payment_requested.v1'' ''o1'' ''o1'')\<lparr>ob_sent_at := Some 6\<rparr>,
         (new_outbox_row 2 6 ''payments.payment_requested.v1'' ''o2'' ''o2'')
            \<lparr>ob_attempts := 1, ob_last_error := Some ''broker down''\<rparr>,
         (new_outbox_row 3 7 ''payments.payment_requested.v1'' ''o3'' ''o3'')\<lparr>ob_sent_at := Some 9\<rparr>]\<rparr>)"
proof -
  have h1: "oe_faults ex_pub_env = no_faults" by (simp add: ex_pub_env_def ex_o_defs)
  have h2: "distinct (map ob_id (o_outbox ex_outbox_db))"
    by (simp add: ex_outbox_db_def new_outbox_row_def)
  have h3: "0 \<le> to_int32 50" by (simp add: to_int32_def)
  have b: "spec_batch 50 ex_outbox_db =
             [new_outbox_row 2 6 ''payments.payment_requested.v1'' ''o2'' ''o2'',
              new_outbox_row 3 7 ''payments.payment_requested.v1'' ''o3'' ''o3'']"
    by (simp add: spec_batch_def to_int32_def ex_outbox_db_def new_outbox_row_def)
  from publisher_pass [of ex_pub_env ex_outbox_db 50] h1 h2 h3
  have "publishOnce ex_pub_env 50 ex_outbox_db =
          (None, ex_outbox_db\<lparr>o_outbox :=
             map (\<lambda>r. if r \<in> set (spec_batch 50 ex_outbox_db) then spec_publish_row ex_pub_env r else r)
                 (o_outbox ex_outbox_db)\<rparr>)"
    by blast
  with h1 h2 h3 show ?thesis
    by (simp add: b)
       (simp add: ex_outbox_db_def new_outbox_row_def spec_publish_row_def ex_pub_env_def ex_o_defs)
qed

subsection \<open>Replaying a command with its key\<close>

lemma find_append_new:
  "find P xs = None \<Longrightarrow> P r \<Longrightarrow> find P (xs @ [r]) = Some r"
  by (induction xs) (auto split: if_splits)

lemma CreateOrder_tx_Inr:
  assumes "CreateOrder_tx env req db = (Inr resp, db1)"
    and "co_IdempotencyKey req \<noteq> ''''"
  shows "\<exists>row. find (has_idempotency (co_UserId req) (co_IdempotencyKey req)) (orders db1) = Some row \<and>
           or_amount row = co_Amount req \<and> or_description row = co_Description req \<and>
           resp = order_of_row env row \<and>
           ((find (has_idempotency (co_UserId req) (co_IdempotencyKey req)) (orders db) = Some row \<and> db1 = db) \<or>
            (find (has_idempotency (co_UserId req) (co_IdempotencyKey req)) (orders db) = None \<and>
             (\<exists>payload. db1 = db\<lparr>orders := orders db @ [row],
                  o_outbox := o_outbox db @
                    [new_outbox_row (o_outbox_seq db + 1) (oe_now env) ''payments.payment_requested.v1''
                       (oe_uuid_String env (or_order_id row)) payload],
                  o_outbox_seq := o_outbox_seq db + 1\<rparr>)))"
proof (cases "find (has_idempotency (co_UserId req) (co_IdempotencyKey req)) (orders db)")
  case (Some existing)
  with assms show ?thesis
    by (auto simp: CreateOrder_tx_def CreateOrderIdempotent_def GetOrderByIdempotency_def
          split: if_splits)
next
  case None
  let ?row = "\<lparr>or_order_id = oe_new_order_id env, or_user_id = co_UserId req, or_amount = co_Amount req,
                or_description = co_Description req, or_status = ''NEW'', or_created_at = oe_now env,
                or_idempotency_key = Some (co_IdempotencyKey req)\<rparr>"
  have P: "has_idempotency (co_UserId req) (co_IdempotencyKey req) ?row"
    by (simp add: has_idempotency_def)
  from assms None have emit: "CreateOrder_emit env req ?row (db\<lparr>orders := orders db @ [?row]\<rparr>) = (Inr resp, db1)"
    by (auto simp: CreateOrder_tx_def CreateOrderIdempotent_def Let_def split: if_splits)
  then obtain payload where
    "db1 = db\<lparr>orders := orders db @ [?row],
              o_outbox := o_outbox db @
                [new_outbox_row (o_outbox_seq db + 1) (oe_now env) ''payments.payment_requested.v1''
                   (oe_uuid_String env (or_order_id ?row)) payload],
              o_outbox_seq := o_outbox_seq db + 1\<rparr>"
    and "resp = order_of_row env ?row"
    by (auto simp: CreateOrder_emit_def o_InsertOutbox_def split: option.splits if_splits)
  with None find_append_new[OF None P] show ?thesis
    by (intro exI[of _ ?row]) auto
qed

lemma CreateOrder_Inr:
  assumes "Handlers_CreateOrder env req db = (Inr resp, db1)"
    and "co_IdempotencyKey req \<noteq> ''''"
  shows "\<exists>row. find (has_idempotency (co_UserId req) (co_IdempotencyKey req)) (orders db1) = Some row \<and>
           or_amount row = co_Amount req \<and> or_description row = co_Description req \<and>
           resp = order_of_row env row \<and>
           ((find (has_idempotency (co_UserId req) (co_IdempotencyKey req)) (orders db) = Some row \<and> db1 = db) \<or>
            (find (has_idempotency (co_UserId req) (co_IdempotencyKey req)) (orders db) = None \<and>
             (\<exists>payload. db1 = db\<lparr>orders := orders db @ [row],
                  o_outbox := o_outbox db @
                    [new_outbox_row (o_outbox_seq db + 1) (oe_now env) ''payments.payment_requested.v1''
                       (oe_uuid_String env (or_order_id row)) payload],
                  o_outbox_seq := o_outbox_seq db + 1\<rparr>)))"
proof -
  from assms(1) have "CreateOrder_tx env req db = (Inr resp, db1)"
    by (auto simp: Handlers_CreateOrder_def WithTx_def split: if_splits prod.splits sum.splits)
  from CreateOrder_tx_Inr[OF this assms(2)] show ?thesis .
qed

lemma CreateOrder_replay:
  assumes "co_UserId req \<noteq> ''''" "0 < co_Amount req" "co_Description req \<noteq> ''''"
    and "co_IdempotencyKey req \<noteq> ''''"
    and "find (has_idempotency (co_UserId req) (co_IdempotencyKey req)) (orders db) = Some row"
    and "or_amount row = co_Amount req" "or_description row = co_Description req"
    and "oe_faults env = no_faults"
  shows "Handlers_CreateOrder env req db = (Inr (order_of_row env row), db)"
  using assms
  by (simp add: Handlers_CreateOrder_def CreateOrder_tx_def CreateOrderIdempotent_def
        GetOrderByIdempotency_def WithTx_def no_faults_def)

lemma CreateOrder_recorded_unchanged:
  assumes "co_IdempotencyKey req \<noteq> ''''"
    and "find (has_idempotency (co_UserId req) (co_IdempotencyKey req)) (orders db) = Some row"
  shows "snd (Handlers_CreateOrder env req db) = db"
  using assms
  by (auto simp: Handlers_CreateOrder_def CreateOrder_tx_def CreateOrderIdempotent_def
        GetOrderByIdempotency_def WithTx_def
      split: if_splits prod.splits sum.splits)

text \<open>Two rows that differ at most in their status.\<close>

lemma orders_step_keeps_keyed_row:
  assumes "find (has_idempotency u k) (orders db) = Some row"
  shows "\<exists>s. find (has_idempotency u k) (orders (orders_step x db)) = Some (row\<lparr>or_status := s\<rparr>)"
proof (cases x)
  case (Op_CreateOrder env req)
  from CreateOrder_orders[of env req db] assms
  have "find (has_idempotency u k) (orders (snd (Handlers_CreateOrder env req db))) = Some row"
    by (auto simp: find_append_Some)
  with Op_CreateOrder show ?thesis by (intro exI[of _ "or_status row"]) simp
next
  case (Op_PaymentResult env m)
  from PaymentResult_handle_any[of env m db]
  consider "snd (PaymentResultConsumer_handleMessage env m db) = db"
    | orderID msgID ns where
        "snd (PaymentResultConsumer_handleMessage env m db) =
           snd (UpdateOrderStatusIfNew no_faults orderID ns (db\<lparr>o_inbox := insert msgID (o_inbox db)\<rparr>))"
    by blast
  then show ?thesis
  proof cases
    case 1
    with assms Op_PaymentResult show ?thesis by (intro exI[of _ "or_status row"]) simp
  next
    case 2
    let ?f = "\<lambda>r. if or_order_id r = orderID \<and> or_status r = ''NEW'' then r\<lparr>or_status := ns\<rparr> else r"
    have pf: "has_idempotency u k (?f r) = has_idempotency u k r" for r :: order_row
      by (simp add: has_idempotency_def)
    have "find (has_idempotency u k) (map ?f (orders db)) = map_option ?f (find (has_idempotency u k) (orders db))"
      using pf by (rule find_map_same_key)
    with assms have "find (has_idempotency u k) (orders (snd (PaymentResultConsumer_handleMessage env m db)))
                       = Some (?f row)"
      unfolding 2 by (simp add: UpdateOrderStatusIfNew_def no_faults_def)
    moreover have "?f row = row\<lparr>or_status := or_status (?f row)\<rparr>" by simp
    ultimately show ?thesis using Op_PaymentResult
      by (intro exI[of _ "or_status (?f row)"]) simp
  qed
next
  case (Op_publishOnce env batch)
  with assms publishOnce_orders[of env batch db] show ?thesis
    by (intro exI[of _ "or_status row"]) simp
qed

lemma orders_run_keeps_keyed_row:
  assumes "find (has_idempotency u k) (orders db) = Some row"
  shows "\<exists>s. find (has_idempotency u k) (orders (orders_run xs db)) = Some (row\<lparr>or_status := s\<rparr>)"
  using assms
proof (induction xs arbitrary: db row)
  case Nil
  then show ?case by (intro exI[of _ "or_status row"]) simp
next
  case (Cons x xs)
  from orders_step_keeps_keyed_row[OF Cons.prems, of x] obtain s
    where s: "find (has_idempotency u k) (orders (orders_step x db)) = Some (row\<lparr>or_status := s\<rparr>)" ..
  from Cons.IH[OF s] show ?case by simp
qed

text \<open>
  C6. An order creation with a key that passes validation and succeeds records a row
  for the key; when the key was new, exactly one \<open>PaymentRequested\<close> row, keyed by the
  order id, is appended to the outbox, and when the key was recorded, none. After any
  sequence of operations on the orders database a replay with the same parameters, in a
  run where no statement fails and with the same rendering of UUIDs, returns the same
  \<open>order_id\<close> and leaves the database, so also the outbox, as it is; and any order
  creation for the same user and key, whatever its other parameters and whatever
  statements fail, leaves the database as it is.
\<close>

theorem create_order_replay:
  assumes "co_UserId req \<noteq> ''''" and "0 < co_Amount req" and "co_Description req \<noteq> ''''"
    and "co_IdempotencyKey req \<noteq> ''''"
    and "Handlers_CreateOrder env req db = (Inr resp, db1)"
    and "oe_faults env' = no_faults"
    and "oe_uuid_String env' = oe_uuid_String env"
  shows "(find (has_idempotency (co_UserId req) (co_IdempotencyKey req)) (orders db) = None \<longrightarrow>
            (\<exists>payload. o_outbox db1 = o_outbox db @
               [new_outbox_row (o_outbox_seq db + 1) (oe_now env) ''payments.payment_requested.v1''
                  (OrderId resp) payload])) \<and>
         (find (has_idempotency (co_UserId req) (co_IdempotencyKey req)) (orders db) \<noteq> None \<longrightarrow>
            o_outbox db1 = o_outbox db) \<and>
         snd (Handlers_CreateOrder env' req (orders_run xs db1)) = orders_run xs db1 \<and>
         (\<exists>resp'. fst (Handlers_CreateOrder env' req (orders_run xs db1)) = Inr resp' \<and>
                  OrderId resp' = OrderId resp) \<and>
         (co_UserId req2 = co_UserId req \<and> co_IdempotencyKey req2 = co_IdempotencyKey req \<longrightarrow>
            snd (Handlers_CreateOrder env2 req2 (orders_run xs db1)) = orders_run xs db1)"
proof -
  from CreateOrder_Inr[OF assms(5,4)] obtain row where
    row: "find (has_idempotency (co_UserId req) (co_IdempotencyKey req)) (orders db1) = Some row"
      "or_amount row = co_Amount req" "or_description row = co_Description req"
      "resp = order_of_row env row"
    and cases: "(find (has_idempotency (co_UserId req) (co_IdempotencyKey req)) (orders db) = Some row \<and> db1 = db) \<or>
            (find (has_idempotency (co_UserId req) (co_IdempotencyKey req)) (orders db) = None \<and>
             (\<exists>payload. db1 = db\<lparr>orders := orders db @ [row],
                  o_outbox := o_outbox db @
                    [new_outbox_row (o_outbox_seq db + 1) (oe_now env) ''payments.payment_requested.v1''
                       (oe_uuid_String env (or_order_id row)) payload],
                  o_outbox_seq := o_outbox_seq db + 1\<rparr>))"
    by blast
  have a: "find (has_idempotency (co_UserId req) (co_IdempotencyKey req)) (orders db) = None \<longrightarrow>
            (\<exists>payload. o_outbox db1 = o_outbox db @
               [new_outbox_row (o_outbox_seq db + 1) (oe_now env) ''payments.payment_requested.v1''
                  (OrderId resp) payload])"
    using cases row(4) by (auto simp: order_of_row_def)
  have b: "find (has_idempotency (co_UserId req) (co_IdempotencyKey req)) (orders db) \<noteq> None \<longrightarrow>
            o_outbox db1 = o_outbox db"
    using cases by auto
  from orders_run_keeps_keyed_row[OF row(1), of xs] obtain s where
    s: "find (has_idempotency (co_UserId req) (co_IdempotencyKey req)) (orders (orders_run xs db1))
          = Some (row\<lparr>or_status := s\<rparr>)" ..
  have "Handlers_CreateOrder env' req (orders_run xs db1) =
          (Inr (order_of_row env' (row\<lparr>or_status := s\<rparr>)), orders_run xs db1)"
    using CreateOrder_replay[OF assms(1-4) s _ _ assms(6)] row(2,3) by simp
  moreover have "OrderId (order_of_row env' (row\<lparr>or_status := s\<rparr>)) = OrderId resp"
    using row(4) assms(7) by (simp add: order_of_row_def)
  moreover have "snd (Handlers_CreateOrder env2 req2 (orders_run xs db1)) = orders_run xs db1"
    if "co_UserId req2 = co_UserId req \<and> co_IdempotencyKey req2 = co_IdempotencyKey req"
    using that CreateOrder_recorded_unchanged[of req2 "orders_run xs db1" "row\<lparr>or_status := s\<rparr>" env2]
      s assms(4) by simp
  ultimately show ?thesis using a b by simp
qed

lemma ex_create_first:
  "Handlers_CreateOrder ex_o_env ex_create empty_orders_db = (Inr ex_created, ex_created_db)"
  by (simp add: create_defs Let_def WithTx_def no_faults_def ex_o_defs ex_create_def empty_orders_db_def
        ex_created_def ex_created_db_def mapOrderStatus_def)

lemma ex_orders_run:
  "orders_run ex_orders_ops ex_created_db =
     \<lparr>orders = [ex_order\<lparr>or_created_at := 9, or_status := ''FINISHED''\<rparr>], o_inbox = {3},
      o_outbox = [(new_outbox_row 1 9 ''payments.payment_requested.v1'' ''o1'' ''o1'')\<lparr>ob_sent_at := Some 9\<rparr>],
      o_outbox_seq = 1\<rparr>"
  by (simp add: ex_orders_ops_def o_consumer_defs ex_o_defs ex_created_db_def publishOnce_def
        publishOnce_tx_def LockUnsentOutbox_def MarkOutboxSent_def to_int32_def new_outbox_row_def)

lemma ex_create_again:
  "Handlers_CreateOrder ex_o_env ex_create (orders_run ex_orders_ops ex_created_db) =
     (Inr (ex_created\<lparr>Status := ORDER_STATUS_FINISHED\<rparr>), orders_run ex_orders_ops ex_created_db)"
  unfolding ex_orders_run
  by (simp add: create_defs Let_def WithTx_def no_faults_def ex_o_defs ex_create_def
        ex_created_def has_idempotency_def mapOrderStatus_def)

theorem create_order_replay_witness:
  "Handlers_CreateOrder ex_o_env ex_create empty_orders_db = (Inr ex_created, ex_created_db) \<and>
   find (has_idempotency (co_UserId ex_create) (co_IdempotencyKey ex_create)) (orders empty_orders_db) = None \<and>
   o_outbox ex_created_db = o_outbox empty_orders_db @
     [new_outbox_row 1 9 ''payments.payment_requested.v1'' ''o1'' ''o1''] \<and>
   snd (Handlers_CreateOrder ex_o_env ex_create (orders_run ex_orders_ops ex_created_db))
     = orders_run ex_orders_ops ex_created_db \<and>
   OrderId (projr (fst (Handlers_CreateOrder ex_o_env ex_create (orders_run ex_orders_ops ex_created_db))))
     = OrderId ex_created \<and>
   Handlers_CreateOrder ex_o_env ex_create ex_created_db = (Inr ex_created, ex_created_db) \<and>
   o_outbox (snd (Handlers_CreateOrder ex_o_env ex_create ex_created_db)) = o_outbox ex_created_db \<and>
   snd (Handlers_CreateOrder (ex_o_env\<lparr>oe_faults := (\<lambda>q. q = Q_Commit)\<rparr>)
          (ex_create\<lparr>co_Amount := 5000\<rparr>) (orders_run ex_orders_ops ex_created_db))
     = orders_run ex_orders_ops ex_created_db"
proof -
  have v: "co_UserId ex_create \<noteq> ''''" "0 < co_Amount ex_create" "co_Description ex_create \<noteq> ''''"
      "co_IdempotencyKey ex_create \<noteq> ''''"
    by (simp_all add: ex_create_def)
  have f: "oe_faults ex_o_env = no_faults" by (simp add: ex_o_defs)
  have again0: "Handlers_CreateOrder ex_o_env ex_create ex_created_db = (Inr ex_created, ex_created_db)"
    by (simp add: create_defs Let_def WithTx_def no_faults_def ex_o_defs ex_create_def
        ex_created_def ex_created_db_def has_idempotency_def mapOrderStatus_def)
  note new = create_order_replay [OF v ex_create_first f refl, of ex_orders_ops
      "ex_create\<lparr>co_Amount := 5000\<rparr>" "ex_o_env\<lparr>oe_faults := (\<lambda>q. q = Q_Commit)\<rparr>"]
  note old = create_order_replay [OF v again0 f refl, of "[]"]
  have n: "find (has_idempotency (co_UserId ex_create) (co_IdempotencyKey ex_create)) (orders empty_orders_db) = None"
    by (simp add: empty_orders_db_def)
  have o: "find (has_idempotency (co_UserId ex_create) (co_IdempotencyKey ex_create)) (orders ex_created_db) \<noteq> None"
    by (simp add: ex_created_db_def ex_create_def ex_o_defs has_idempotency_def)
  have 1: "o_outbox ex_created_db = o_outbox empty_orders_db @
     [new_outbox_row 1 9 ''payments.payment_requested.v1'' ''o1'' ''o1'']"
    by (simp add: ex_created_db_def empty_orders_db_def)
  from new have 2: "snd (Handlers_CreateOrder ex_o_env ex_create (orders_run ex_orders_ops ex_created_db))
     = orders_run ex_orders_ops ex_created_db"
    and 3: "OrderId (projr (fst (Handlers_CreateOrder ex_o_env ex_create (orders_run ex_orders_ops ex_created_db))))
     = OrderId ex_created"
    and 5: "snd (Handlers_CreateOrder (ex_o_env\<lparr>oe_faults := (\<lambda>q. q = Q_Commit)\<rparr>)
          (ex_create\<lparr>co_Amount := 5000\<rparr>) (orders_run ex_orders_ops ex_created_db))
     = orders_run ex_orders_ops ex_created_db"
    by auto
  from old o have 4: "o_outbox (snd (Handlers_CreateOrder ex_o_env ex_create ex_created_db)) = o_outbox ex_created_db"
    by (simp add: again0)
  from ex_create_first n 1 2 3 again0 4 5 show ?thesis by blast
qed

lemma TopUp_tx_Inr:
  assumes "TopUp_tx flt u k a db = (Inr (bal, c), db1)"
  shows "\<exists>row. topup_idempotency db1 (u, k) = Some row \<and> ti_amount row = a \<and> ti_balance_after row = bal"
  using assms
  by (auto simp: TopUp_tx_def InsertTopupIdempotency_def GetTopupIdempotency_def q_TopUp_def
        SetTopupIdempotencyBalance_def Let_def
      split: if_splits option.splits)

lemma TopUp_Inr:
  assumes "Handlers_TopUp flt req db = (Inr acct, db1)" and "tu_IdempotencyKey req \<noteq> ''''"
  shows "ac_UserId acct = tu_UserId req \<and>
         (\<exists>row. topup_idempotency db1 (tu_UserId req, tu_IdempotencyKey req) = Some row \<and>
                ti_amount row = tu_Amount req \<and> ti_balance_after row = ac_Balance acct)"
proof -
  from assms obtain bal c where
    tx: "TopUp_tx flt (tu_UserId req) (tu_IdempotencyKey req) (tu_Amount req) db = (Inr (bal, c), db1)"
    and acct: "acct = \<lparr>ac_UserId = tu_UserId req, ac_Balance = bal\<rparr>"
    by (auto simp: Handlers_TopUp_def WithTx_def split: if_splits prod.splits sum.splits)
  from TopUp_tx_Inr[OF tx] acct show ?thesis by simp
qed

lemma TopUp_tx_keeps_row:
  assumes "topup_idempotency db p = Some row"
  shows "topup_idempotency (snd (TopUp_tx flt u k a db)) p = Some row \<or> isl (fst (TopUp_tx flt u k a db))"
  using assms
  by (auto simp: TopUp_tx_def InsertTopupIdempotency_def GetTopupIdempotency_def q_TopUp_def
        SetTopupIdempotencyBalance_def DeleteTopupIdempotency_def Let_def
      split: if_splits option.splits)

lemma Handlers_TopUp_keeps_row:
  assumes "topup_idempotency db p = Some row"
  shows "topup_idempotency (snd (Handlers_TopUp flt req db)) p = Some row"
proof (cases "tu_UserId req = '''' \<or> tu_Amount req \<le> 0 \<or> tu_IdempotencyKey req = ''''")
  case True
  with assms show ?thesis
    by (auto simp: Handlers_TopUp_def q_TopUp_def split: option.splits)
next
  case False
  from TopUp_tx_keeps_row[OF assms, of flt "tu_UserId req" "tu_IdempotencyKey req" "tu_Amount req"]
    False assms
  show ?thesis
    by (auto simp: Handlers_TopUp_def WithTx_def split: prod.splits sum.splits)
qed

lemma payments_step_keeps_row:
  assumes "topup_idempotency db p = Some row"
  shows "topup_idempotency (payments_step x db) p = Some row"
proof (cases x)
  case (Op_CreateAccount flt req)
  with assms show ?thesis
    by (auto simp: Handlers_CreateAccount_def q_CreateAccount_def q_CreateAccountIdempotent_def
        split: option.splits)
next
  case (Op_TopUp flt req)
  with Handlers_TopUp_keeps_row[OF assms] show ?thesis by simp
next
  case (Op_PaymentRequested env topic m)
  have "topup_idempotency (snd (PaymentRequested_tx env topic ev msgID orderID db)) = topup_idempotency db"
    for ev msgID orderID
    by (auto simp: PaymentRequested_tx_def p_InsertInboxCheck_def TryDeductOnce_def AccountExists_def
          p_InsertOutbox_def split: option.splits)
  then have "topup_idempotency (snd (PaymentRequestedConsumer_handleMessage env topic m db)) = topup_idempotency db"
    by (auto simp: PaymentRequestedConsumer_handleMessage_def WithTx_def
        split: option.splits prod.splits sum.splits)
       (metis snd_conv)
  with assms Op_PaymentRequested show ?thesis by simp
qed

lemma payments_run_keeps_row:
  "topup_idempotency db p = Some row \<Longrightarrow> topup_idempotency (payments_run xs db) p = Some row"
  by (induction xs arbitrary: db) (auto simp: payments_step_keeps_row)

text \<open>
  C7 as stated fails for order creation: the replay returns the stored order with its
  current status, so after the payment result has been consumed the response differs
  from the first one in its status.
\<close>

theorem replay_response_counterexample:
  "Handlers_CreateOrder ex_o_env ex_create empty_orders_db = (Inr ex_created, ex_created_db) \<and>
   Handlers_CreateOrder ex_o_env ex_create (orders_run ex_orders_ops ex_created_db) =
     (Inr (ex_created\<lparr>Status := ORDER_STATUS_FINISHED\<rparr>), orders_run ex_orders_ops ex_created_db) \<and>
   ex_created\<lparr>Status := ORDER_STATUS_FINISHED\<rparr> \<noteq> ex_created"
  using ex_create_first ex_create_again by (simp add: ex_created_def)

text \<open>
  C7, amended. After a successful top-up with a key, and after any sequence of operations
  on the payments database, the same request returns the same account and balance and
  changes nothing. After a successful order creation with a key, and after any sequence
  of operations on the orders database, the same request returns the first response with
  the status replaced by the current status of the stored order, and changes nothing.
  The replays run with no failing statement and with the same rendering of UUIDs.
\<close>

theorem replay_same_response:
  assumes "tu_UserId treq \<noteq> ''''" and "0 < tu_Amount treq" and "tu_IdempotencyKey treq \<noteq> ''''"
    and "Handlers_TopUp flt treq pdb = (Inr acct, pdb1)"
    and "co_UserId creq \<noteq> ''''" and "0 < co_Amount creq" and "co_Description creq \<noteq> ''''"
    and "co_IdempotencyKey creq \<noteq> ''''"
    and "Handlers_CreateOrder env creq odb = (Inr resp, odb1)"
    and "oe_faults env' = no_faults"
    and "oe_uuid_String env' = oe_uuid_String env"
  shows "Handlers_TopUp no_faults treq (payments_run ps pdb1) = (Inr acct, payments_run ps pdb1) \<and>
         (\<exists>row. find (has_idempotency (co_UserId creq) (co_IdempotencyKey creq)) (orders (orders_run xs odb1))
                   = Some row \<and>
                Handlers_CreateOrder env' creq (orders_run xs odb1) =
                  (Inr (resp\<lparr>Status := mapOrderStatus (or_status row)\<rparr>), orders_run xs odb1))"
proof -
  from TopUp_Inr[OF assms(4,3)] obtain trow where
    t: "ac_UserId acct = tu_UserId treq"
       "topup_idempotency pdb1 (tu_UserId treq, tu_IdempotencyKey treq) = Some trow"
       "ti_amount trow = tu_Amount treq" "ti_balance_after trow = ac_Balance acct"
    by blast
  from payments_run_keeps_row[OF t(2), of ps]
  have "Handlers_TopUp no_faults treq (payments_run ps pdb1) =
          (Inr \<lparr>ac_UserId = tu_UserId treq, ac_Balance = ti_balance_after trow\<rparr>, payments_run ps pdb1)"
    using TopUp_replay[OF assms(1-3) _ t(3)] by simp
  with t(1,4) have a: "Handlers_TopUp no_faults treq (payments_run ps pdb1) = (Inr acct, payments_run ps pdb1)"
    by simp
  from CreateOrder_Inr[OF assms(9,8)] obtain row where
    row: "find (has_idempotency (co_UserId creq) (co_IdempotencyKey creq)) (orders odb1) = Some row"
      "or_amount row = co_Amount creq" "or_description row = co_Description creq"
      "resp = order_of_row env row"
    by blast
  from orders_run_keeps_keyed_row[OF row(1), of xs] obtain s where
    s: "find (has_idempotency (co_UserId creq) (co_IdempotencyKey creq)) (orders (orders_run xs odb1))
          = Some (row\<lparr>or_status := s\<rparr>)" ..
  have "Handlers_CreateOrder env' creq (orders_run xs odb1) =
          (Inr (order_of_row env' (row\<lparr>or_status := s\<rparr>)), orders_run xs odb1)"
    using CreateOrder_replay[OF assms(5-8) s _ _ assms(10)] row(2,3) by simp
  moreover have "order_of_row env' (row\<lparr>or_status := s\<rparr>) =
                   resp\<lparr>Status := mapOrderStatus (or_status (row\<lparr>or_status := s\<rparr>))\<rparr>"
    using row(4) assms(11) by (simp add: order_of_row_def)
  ultimately have "Handlers_CreateOrder env' creq (orders_run xs odb1) =
                  (Inr (resp\<lparr>Status := mapOrderStatus (or_status (row\<lparr>or_status := s\<rparr>))\<rparr>), orders_run xs odb1)"
    by simp
  with s a show ?thesis by blast
qed

lemma ex_topup_first:
  "Handlers_TopUp no_faults ex_topup ex_payments_db = (Inr \<lparr>ac_UserId = ''u1'', ac_Balance = 1050\<rparr>, ex_topup_db)"
  by (simp add: topup_defs WithTx_def no_faults_def ex_topup_def ex_topup_db_def ex_p_defs MaxInt64_def)

theorem replay_same_response_witness:
  "Handlers_TopUp no_faults ex_topup ex_payments_db = (Inr \<lparr>ac_UserId = ''u1'', ac_Balance = 1050\<rparr>, ex_topup_db) \<and>
   Handlers_TopUp no_faults ex_topup (payments_run ex_payments_ops ex_topup_db) =
     (Inr \<lparr>ac_UserId = ''u1'', ac_Balance = 1050\<rparr>, payments_run ex_payments_ops ex_topup_db) \<and>
   Handlers_CreateOrder ex_o_env ex_create empty_orders_db = (Inr ex_created, ex_created_db) \<and>
   Handlers_CreateOrder ex_o_env ex_create (orders_run ex_orders_ops ex_created_db) =
     (Inr (ex_created\<lparr>Status := ORDER_STATUS_FINISHED\<rparr>), orders_run ex_orders_ops ex_created_db)"
proof -
  have v: "tu_UserId ex_topup \<noteq> ''''" "0 < tu_Amount ex_topup" "tu_IdempotencyKey ex_topup \<noteq> ''''"
    by (simp_all add: ex_topup_def)
  have w: "co_UserId ex_create \<noteq> ''''" "0 < co_Amount ex_create" "co_Description ex_create \<noteq> ''''"
      "co_IdempotencyKey ex_create \<noteq> ''''"
    by (simp_all add: ex_create_def)
  have f: "oe_faults ex_o_env = no_faults" by (simp add: ex_o_defs)
  from replay_same_response [OF v ex_topup_first w ex_create_first f refl, of ex_payments_ops ex_orders_ops]
  obtain row where
    a: "Handlers_TopUp no_faults ex_topup (payments_run ex_payments_ops ex_topup_db) =
          (Inr \<lparr>ac_UserId = ''u1'', ac_Balance = 1050\<rparr>, payments_run ex_payments_ops ex_topup_db)"
    and r: "find (has_idempotency (co_UserId ex_create) (co_IdempotencyKey ex_create))
              (orders (orders_run ex_orders_ops ex_created_db)) = Some row"
    and b: "Handlers_CreateOrder ex_o_env ex_create (orders_run ex_orders_ops ex_created_db) =
              (Inr (ex_created\<lparr>Status := mapOrderStatus (or_status row)\<rparr>), orders_run ex_orders_ops ex_created_db)"
    by blast
  from r have "or_status row = ''FINISHED''"
    by (auto simp: ex_orders_run ex_create_def ex_o_defs has_idempotency_def)
  with b have "Handlers_CreateOrder ex_o_env ex_create (orders_run ex_orders_ops ex_created_db) =
     (Inr (ex_created\<lparr>Status := ORDER_STATUS_FINISHED\<rparr>), orders_run ex_orders_ops ex_created_db)"
    by (simp add: mapOrderStatus_def)
  with a ex_topup_first ex_create_first show ?thesis by blast
qed

end
